theory Spec2Isabelle
  imports Complex_Main
begin

section \<open>JavaScript values used by the wizard\<close>

text \<open>
  A JavaScript \<^verbatim>\<open>number\<close> is an IEEE 754 binary64 value: a finite double, one
  of the two infinities, or NaN. \<open>Fin x\<close> is the finite double of value \<open>x\<close>, with
  \<open>Fin 0\<close> for \<^verbatim>\<open>+0\<close>, and \<open>NegZero\<close> is \<^verbatim>\<open>-0\<close>.
\<close>

datatype jsnum = Fin real | NegZero | PosInf | NegInf | NaN

subsection \<open>Rounding to binary64\<close>

text \<open>\<open>pow2 e\<close> is 2 to the power \<open>e\<close>.\<close>

definition pow2 :: "int \<Rightarrow> real" where
  "pow2 e = (if 0 \<le> e then 2 ^ nat e else 1 / 2 ^ nat (- e))"

text \<open>
  The exponent of the binade of a positive real \<open>a\<close>: the largest \<open>e\<close> with
  \<open>2^e \<le> a\<close>, kept between \<open>-1022\<close>, below which the doubles are subnormal, and
  1023, the exponent of the largest doubles. The search starts at exponent 0 and
  walks up, or down, one binade at a time.
\<close>

primrec expo_up :: "nat \<Rightarrow> int \<Rightarrow> real \<Rightarrow> int" where
  "expo_up 0 e a = e"
| "expo_up (Suc k) e a = (if pow2 (e + 1) \<le> a then expo_up k (e + 1) a else e)"

primrec expo_down :: "nat \<Rightarrow> int \<Rightarrow> real \<Rightarrow> int" where
  "expo_down 0 e a = e"
| "expo_down (Suc k) e a = (if pow2 e \<le> a then e else expo_down k (e - 1) a)"

definition expo :: "real \<Rightarrow> int" where
  "expo a = (if 1 \<le> a then expo_up 1023 0 a else expo_down 1022 0 a)"

text \<open>Rounding a real to the nearest integer, a tie to the even one.\<close>

definition rhe :: "real \<Rightarrow> int" where
  "rhe t = (let n = \<lfloor>t\<rfloor>; f = t - of_int n
            in if f < 1 / 2 then n else if 1 / 2 < f then n + 1
               else if even n then n else n + 1)"

text \<open>
  \<open>round64 r\<close> is the double nearest to the real \<open>r\<close>, a tie to the one with the
  even significand. In the binade of exponent \<open>e\<close> the doubles are the multiples
  of \<open>2^(e - 52)\<close>. A result of \<open>2^1024\<close> or more is the infinity of the sign of
  \<open>r\<close>, a result that rounds to nothing is the zero of the sign of \<open>r\<close>, and the
  exact zero is \<^verbatim>\<open>+0\<close>.
\<close>

definition round64 :: "real \<Rightarrow> jsnum" where
  "round64 r =
     (if r = 0 then Fin 0
      else (let a = \<bar>r\<bar>; q = pow2 (expo a - 52); n = rhe (a / q); m = of_int n * q
            in if pow2 1024 \<le> m then (if r < 0 then NegInf else PosInf)
               else if n = 0 then (if r < 0 then NegZero else Fin 0)
               else Fin (if r < 0 then - m else m)))"

text \<open>
  A number that is a double: a finite one is one that rounding leaves as it is. The
  numbers the program holds are doubles; \<open>Fin\<close> of a real that is not a double
  stands for no number of the program.
\<close>

definition js_double :: "jsnum \<Rightarrow> bool" where
  "js_double x = (case x of Fin r \<Rightarrow> round64 r = Fin r | _ \<Rightarrow> True)"

subsection \<open>Arithmetic and comparison\<close>

text \<open>The value of a finite number, its sign bit, and the tests for zero and infinity.\<close>

fun js_value :: "jsnum \<Rightarrow> real" where
  "js_value (Fin x) = x"
| "js_value _ = 0"

fun js_negative :: "jsnum \<Rightarrow> bool" where
  "js_negative (Fin x) = (x < 0)"
| "js_negative NegZero = True"
| "js_negative NegInf = True"
| "js_negative _ = False"

fun js_is_zero :: "jsnum \<Rightarrow> bool" where
  "js_is_zero (Fin x) = (x = 0)"
| "js_is_zero NegZero = True"
| "js_is_zero _ = False"

fun js_is_inf :: "jsnum \<Rightarrow> bool" where
  "js_is_inf PosInf = True"
| "js_is_inf NegInf = True"
| "js_is_inf _ = False"

definition js_finite :: "jsnum \<Rightarrow> bool" where
  "js_finite x = (case x of Fin r \<Rightarrow> True | NegZero \<Rightarrow> True | _ \<Rightarrow> False)"

definition signed_zero :: "bool \<Rightarrow> jsnum" where
  "signed_zero negative = (if negative then NegZero else Fin 0)"

definition signed_inf :: "bool \<Rightarrow> jsnum" where
  "signed_inf negative = (if negative then NegInf else PosInf)"

text \<open>
  \<^verbatim>\<open>x - y\<close>. NaN if an operand is NaN or both are the same infinity; an infinite
  operand decides otherwise. On finite operands it is the rounded exact
  difference; an exact zero is \<^verbatim>\<open>+0\<close>, but \<^verbatim>\<open>-0 - +0\<close> is \<^verbatim>\<open>-0\<close>.
\<close>

fun js_sub :: "jsnum \<Rightarrow> jsnum \<Rightarrow> jsnum" where
  "js_sub NaN _ = NaN"
| "js_sub _ NaN = NaN"
| "js_sub PosInf PosInf = NaN"
| "js_sub NegInf NegInf = NaN"
| "js_sub PosInf _ = PosInf"
| "js_sub NegInf _ = NegInf"
| "js_sub _ PosInf = NegInf"
| "js_sub _ NegInf = PosInf"
| "js_sub NegZero (Fin y) = (if y = 0 then NegZero else round64 (- y))"
| "js_sub x y = round64 (js_value x - js_value y)"

text \<open>
  \<^verbatim>\<open>x / y\<close>. The sign of the result is the exclusive or of the signs. Infinity
  by infinity and zero by zero are NaN; a nonzero number by a zero is an infinity,
  never an exception; otherwise the rounded exact quotient.
\<close>

fun js_div :: "jsnum \<Rightarrow> jsnum \<Rightarrow> jsnum" where
  "js_div NaN _ = NaN"
| "js_div _ NaN = NaN"
| "js_div x y =
     (if js_is_inf x then (if js_is_inf y then NaN else signed_inf (js_negative x \<noteq> js_negative y))
      else if js_is_inf y then signed_zero (js_negative x \<noteq> js_negative y)
      else if js_is_zero y
        then (if js_is_zero x then NaN else signed_inf (js_negative x \<noteq> js_negative y))
      else if js_is_zero x then signed_zero (js_negative x \<noteq> js_negative y)
      else round64 (js_value x / js_value y))"

text \<open>\<^verbatim>\<open>x * y\<close>. Infinity times zero is NaN; otherwise the rounded exact product.\<close>

fun js_mul :: "jsnum \<Rightarrow> jsnum \<Rightarrow> jsnum" where
  "js_mul NaN _ = NaN"
| "js_mul _ NaN = NaN"
| "js_mul x y =
     (if js_is_inf x \<or> js_is_inf y
        then (if js_is_zero x \<or> js_is_zero y then NaN
              else signed_inf (js_negative x \<noteq> js_negative y))
      else if js_is_zero x \<or> js_is_zero y then signed_zero (js_negative x \<noteq> js_negative y)
      else round64 (js_value x * js_value y))"

text \<open>\<^verbatim>\<open>a >= b\<close>: false as soon as one side is NaN; the two zeros are equal.\<close>

fun js_ge :: "jsnum \<Rightarrow> jsnum \<Rightarrow> bool" where
  "js_ge NaN _ = False"
| "js_ge _ NaN = False"
| "js_ge PosInf _ = True"
| "js_ge _ NegInf = True"
| "js_ge NegInf _ = False"
| "js_ge _ PosInf = False"
| "js_ge x y = (js_value y \<le> js_value x)"

text \<open>\<^verbatim>\<open>a > b\<close>, for numbers that are not NaN the same as \<^verbatim>\<open>a >= b && !(b >= a)\<close>.\<close>

definition js_gt :: "jsnum \<Rightarrow> jsnum \<Rightarrow> bool" where
  "js_gt x y = (js_ge x y \<and> \<not> js_ge y x)"

text \<open>A number above zero, and one below zero: finite and not zero, or infinite.\<close>

definition js_above_zero :: "jsnum \<Rightarrow> bool" where
  "js_above_zero d = (case d of PosInf \<Rightarrow> True | Fin z \<Rightarrow> 0 < z | _ \<Rightarrow> False)"

definition js_below_zero :: "jsnum \<Rightarrow> bool" where
  "js_below_zero d = (case d of NegInf \<Rightarrow> True | Fin z \<Rightarrow> z < 0 | _ \<Rightarrow> False)"

text \<open>
  The values that reach the request body: strings, numbers, booleans,
  \<^verbatim>\<open>undefined\<close>, arrays, and object literals as their properties in the order
  they are written.
\<close>

datatype jsval =
    JUndefined
  | JStr string
  | JNum jsnum
  | JBool bool
  | JArr "jsval list"
  | JObj "(string \<times> jsval) list"

fun js_keys :: "jsval \<Rightarrow> string list" where
  "js_keys (JObj ps) = map fst ps"
| "js_keys _ = []"

text \<open>Property access \<^verbatim>\<open>o.k\<close>: \<^verbatim>\<open>undefined\<close> for a property the object lacks.\<close>

fun js_get :: "jsval \<Rightarrow> string \<Rightarrow> jsval" where
  "js_get (JObj ps) k = (case map_of ps k of Some v \<Rightarrow> v | None \<Rightarrow> JUndefined)"
| "js_get _ k = JUndefined"

section \<open>The wizard: frontend/src/pages/OPCUAWizard.tsx\<close>

text \<open>
  \<^verbatim>\<open>type NodeConfig = { nodeId: string; alias: string; unit: string;
  category: string; min?: number; max?: number }\<close>
  (\<open>alias_n\<close>, \<open>min_val\<close> and \<open>max_val\<close> are the fields \<^verbatim>\<open>alias\<close>, \<^verbatim>\<open>min\<close>
  and \<^verbatim>\<open>max\<close>).
  The optional fields are \<open>None\<close> when \<^verbatim>\<open>undefined\<close>.
\<close>

record NodeConfig =
  nodeId :: string
  alias_n :: string
  unit :: string
  category :: string
  min_val :: "jsnum option"
  max_val :: "jsnum option"

text \<open>\<^verbatim>\<open>s || undefined\<close> on a string: the empty string is the only falsy one.\<close>

definition or_undefined :: "string \<Rightarrow> jsval" where
  "or_undefined s = (if s = [] then JUndefined else JStr s)"

definition payloadNode :: "NodeConfig \<Rightarrow> jsval" where
  "payloadNode n = JObj
     [(''node_id'', JStr (nodeId n)),
      (''alias'', JStr (alias_n n)),
      (''unit'', or_undefined (unit n)),
      (''category'', or_undefined (category n))]"

definition buildPayload :: "string \<Rightarrow> NodeConfig list \<Rightarrow> jsval" where
  "buildPayload endpointUrl nodes = JObj
     [(''name'', JStr ''OPC UA Source''),
      (''endpoint_url'', JStr endpointUrl),
      (''namespace_index'', JNum (Fin 3)),
      (''sampling_interval_ms'', JNum (Fin 1000)),
      (''session_timeout_ms'', JNum (Fin 60000)),
      (''security_mode'', JStr ''anonymous''),
      (''security_policy'', JStr ''''),
      (''security_mode_level'', JStr ''''),
      (''timestamp_source'', JStr ''server''),
      (''deduplication_enabled'', JBool True),
      (''unit_override_policy'', JStr ''preserve''),
      (''db_type'', JStr ''timescale''),
      (''db_name'', JStr ''pm_db''),
      (''tags'', JObj [(''machine'', JStr ''OPCUA-Simulation-Machine'')]),
      (''nodes'', JArr (map payloadNode nodes))]"

text \<open>The initial \<^verbatim>\<open>useState\<close> value of \<^verbatim>\<open>nodes\<close>; the degree sign is U+00B0.\<close>

definition default_nodes :: "NodeConfig list" where
  "default_nodes =
     [\<lparr>nodeId = ''ns=3;i=1009'', alias_n = ''opcua_temperature'', unit = [CHR 0xB0, CHR ''C''],
        category = ''temperature'', min_val = Some (Fin 0), max_val = Some (Fin 100)\<rparr>,
      \<lparr>nodeId = ''ns=3;i=1010'', alias_n = ''opcua_vibration'', unit = ''mm/s'',
        category = ''vibration'', min_val = Some (Fin 0), max_val = Some (Fin 10)\<rparr>,
      \<lparr>nodeId = ''ns=3;i=1012'', alias_n = ''opcua_motor_current'', unit = ''A'',
        category = ''motor_current'', min_val = Some (Fin 0), max_val = Some (Fin 30)\<rparr>,
      \<lparr>nodeId = ''ns=3;i=1013'', alias_n = ''opcua_wear_index'', unit = ''%'',
        category = ''wear'', min_val = Some (Fin 0), max_val = Some (Fin 100)\<rparr>,
      \<lparr>nodeId = ''ns=3;i=1011'', alias_n = ''opcua_pressure'', unit = ''bar'',
        category = ''pressure'', min_val = Some (Fin 0), max_val = Some (Fin 200)\<rparr>]"

definition default_endpoint :: string where
  "default_endpoint = ''opc.tcp://DESKTOP-61HAQLS.mshome.net:53530/OPCUA/SimulationServer''"

datatype status = Normal | Warning | Critical

text \<open>
  The percentage \<^verbatim>\<open>((value - node.min) / range) * 100\<close> with
  \<^verbatim>\<open>range = node.max - node.min\<close>, as \<^verbatim>\<open>getStatusForValue\<close> computes it.
\<close>

definition percentage :: "jsnum \<Rightarrow> jsnum \<Rightarrow> jsnum \<Rightarrow> jsnum" where
  "percentage lo hi v = js_mul (js_div (js_sub v lo) (js_sub hi lo)) (Fin 100)"

text \<open>
  \<^verbatim>\<open>getStatusForValue(alias, value)\<close>; \<^verbatim>\<open>nodes\<close> is the component state the
  closure reads. \<^verbatim>\<open>nodes.find\<close> returns the first node with the alias, or
  \<^verbatim>\<open>undefined\<close>.
\<close>

definition getStatusForValue :: "NodeConfig list \<Rightarrow> string \<Rightarrow> jsnum \<Rightarrow> status" where
  "getStatusForValue nodes a v =
     (case find (\<lambda>n. alias_n n = a) nodes of
        None \<Rightarrow> Normal
      | Some node \<Rightarrow>
          (case (min_val node, max_val node) of
             (Some lo, Some hi) \<Rightarrow>
               (let range = js_sub hi lo;
                    percentage = js_mul (js_div (js_sub v lo) range) (Fin 100)
                in if js_ge percentage (Fin 90) then Critical
                   else if js_ge percentage (Fin 70) then Warning
                   else Normal)
           | _ \<Rightarrow> Normal))"

subsection \<open>Component state and its handlers\<close>

text \<open>\<^verbatim>\<open>type TestResult = { ok; handshakeLogs; samplePreview; error? }\<close>.\<close>

record TestResult =
  ok :: bool
  handshakeLogs :: "string list"
  samplePreview :: "jsval list"
  error_t :: "string option"

text \<open>
  What the component has sent to and heard from the backend, most recent first.
  \<open>TestFailed\<close> and \<open>ActivateFailed\<close> stand for the \<^verbatim>\<open>catch\<close> branch: the
  request was rejected, or handling its response threw.
\<close>

datatype http_event =
    TestRequested jsval
  | TestResponded bool
  | TestFailed
  | ActivateRequested jsval
  | ActivateResponded
  | ActivateFailed

text \<open>
  The \<^verbatim>\<open>useState\<close> cells of the component (\<^verbatim>\<open>liveValues\<close>, which only the
  meters read, is left out), and the traffic so far.
\<close>

record wizard =
  endpointUrl :: string
  nodes :: "NodeConfig list"
  isTesting :: bool
  isActivating :: bool
  testResult :: "TestResult option"
  error :: "string option"
  success :: "string option"
  isConnected :: bool
  http :: "http_event list"

definition init_wizard :: wizard where
  "init_wizard =
     \<lparr>endpointUrl = default_endpoint, nodes = default_nodes, isTesting = False,
      isActivating = False, testResult = None, error = None, success = None,
      isConnected = False, http = []\<rparr>"

text \<open>\<^verbatim>\<open>a || b\<close> on optional strings: \<^verbatim>\<open>undefined\<close> and \<^verbatim>\<open>""\<close> are falsy.\<close>

definition js_or :: "string option \<Rightarrow> string option \<Rightarrow> string option" where
  "js_or a b = (case a of Some (c # cs) \<Rightarrow> a | _ \<Rightarrow> b)"

text \<open>\<^verbatim>\<open>testResult?.ok\<close>.\<close>

definition testResult_ok :: "wizard \<Rightarrow> bool" where
  "testResult_ok s = (case testResult s of None \<Rightarrow> False | Some r \<Rightarrow> ok r)"

text \<open>The \<^verbatim>\<open>disabled\<close> attributes of the two buttons.\<close>

definition testDisabled :: "wizard \<Rightarrow> bool" where
  "testDisabled s = (isTesting s \<or> isActivating s)"

definition activateDisabled :: "wizard \<Rightarrow> bool" where
  "activateDisabled s = (isActivating s \<or> isTesting s \<or> \<not> testResult_ok s)"

datatype str_field = F_nodeId | F_alias | F_unit | F_category
datatype num_field = F_min | F_max

text \<open>
  What can happen to the mounted component: a click, an edit, or the settling of
  the request in flight. \<open>TestResolved\<close> carries \<^verbatim>\<open>response.data\<close>'s
  \<^verbatim>\<open>ok\<close>, \<^verbatim>\<open>handshake_logs || []\<close>, \<^verbatim>\<open>sample_preview || []\<close> and
  \<^verbatim>\<open>error\<close>; the rejections carry \<^verbatim>\<open>err?.response?.data?.detail\<close> and
  \<^verbatim>\<open>err.message\<close>; \<open>ActivateResolved\<close> carries \<^verbatim>\<open>node_count\<close> as printed.
\<close>

datatype event =
    ClickTest
  | TestResolved bool "string list" "jsval list" "string option"
  | TestRejected "string option" "string option"
  | ClickActivate
  | ActivateResolved string
  | ActivateRejected "string option" "string option"
  | SetEndpointUrl string
  | AddNode
  | UpdateNodeStr nat str_field string
  | UpdateNodeNum nat num_field jsnum
  | RemoveNode nat

definition addNode :: "NodeConfig list \<Rightarrow> NodeConfig list" where
  "addNode ns = ns @ [\<lparr>nodeId = [], alias_n = [], unit = [], category = [],
                       min_val = Some (Fin 0), max_val = Some (Fin 100)\<rparr>]"

fun set_str :: "str_field \<Rightarrow> string \<Rightarrow> NodeConfig \<Rightarrow> NodeConfig" where
  "set_str F_nodeId v n = n\<lparr>nodeId := v\<rparr>"
| "set_str F_alias v n = n\<lparr>alias_n := v\<rparr>"
| "set_str F_unit v n = n\<lparr>unit := v\<rparr>"
| "set_str F_category v n = n\<lparr>category := v\<rparr>"

fun set_num :: "num_field \<Rightarrow> jsnum \<Rightarrow> NodeConfig \<Rightarrow> NodeConfig" where
  "set_num F_min v n = n\<lparr>min_val := Some v\<rparr>"
| "set_num F_max v n = n\<lparr>max_val := Some v\<rparr>"

text \<open>\<^verbatim>\<open>nodes.filter((_, i) => i !== index)\<close>.\<close>

definition removeNode :: "nat \<Rightarrow> NodeConfig list \<Rightarrow> NodeConfig list" where
  "removeNode index ns = take index ns @ drop (Suc index) ns"

text \<open>
  One event. \<open>None\<close>: the event cannot happen in this state (a disabled button
  does not fire \<^verbatim>\<open>onClick\<close>; a request settles only while it is in flight, which
  is from \<^verbatim>\<open>setIsTesting(true)\<close> or \<^verbatim>\<open>setIsActivating(true)\<close> to the
  \<^verbatim>\<open>finally\<close> block; an edit addresses a row that is rendered). Each handler
  runs to its \<^verbatim>\<open>await\<close>, and from the settled request to its end, without
  another event in between.
\<close>

fun step :: "wizard \<Rightarrow> event \<Rightarrow> wizard option" where
  "step s ClickTest =
     (if testDisabled s then None
      else Some (s\<lparr>isTesting := True, error := None, testResult := None,
                   http := TestRequested (buildPayload (endpointUrl s) (nodes s)) # http s\<rparr>))"
| "step s (TestResolved k logs preview err) =
     (if \<not> isTesting s then None
      else Some (s\<lparr>testResult := Some \<lparr>ok = k, handshakeLogs = logs,
                                        samplePreview = preview, error_t = err\<rparr>,
                   isTesting := False, http := TestResponded k # http s\<rparr>))"
| "step s (TestRejected detail message) =
     (if \<not> isTesting s then None
      else Some (s\<lparr>error := js_or (js_or detail message) (Some ''Test failed''),
                   testResult := Some \<lparr>ok = False, handshakeLogs = [], samplePreview = [],
                                        error_t = js_or detail message\<rparr>,
                   isTesting := False, http := TestFailed # http s\<rparr>))"
| "step s ClickActivate =
     (if activateDisabled s then None
      else Some (s\<lparr>isActivating := True, error := None, success := None,
                   http := ActivateRequested (buildPayload (endpointUrl s) (nodes s)) # http s\<rparr>))"
| "step s (ActivateResolved node_count) =
     (if \<not> isActivating s then None
      else Some (s\<lparr>success := Some (''Source activated with '' @ node_count @
                                     '' node(s). Data is now being collected.''),
                   isConnected := True, isActivating := False,
                   http := ActivateResponded # http s\<rparr>))"
| "step s (ActivateRejected detail message) =
     (if \<not> isActivating s then None
      else Some (s\<lparr>error := js_or (js_or detail message) (Some ''Activation failed''),
                   isActivating := False, http := ActivateFailed # http s\<rparr>))"
| "step s (SetEndpointUrl u) = Some (s\<lparr>endpointUrl := u\<rparr>)"
| "step s AddNode = Some (s\<lparr>nodes := addNode (nodes s)\<rparr>)"
| "step s (UpdateNodeStr index field v) =
     (if index < length (nodes s)
      then Some (s\<lparr>nodes := (nodes s)[index := set_str field v (nodes s ! index)]\<rparr>)
      else None)"
| "step s (UpdateNodeNum index field v) =
     (if index < length (nodes s)
      then Some (s\<lparr>nodes := (nodes s)[index := set_num field v (nodes s ! index)]\<rparr>)
      else None)"
| "step s (RemoveNode index) =
     (if index < length (nodes s) then Some (s\<lparr>nodes := removeNode index (nodes s)\<rparr>)
      else None)"

fun run :: "wizard \<Rightarrow> event list \<Rightarrow> wizard option" where
  "run s [] = Some s"
| "run s (e # es) = (case step s e of None \<Rightarrow> None | Some s' \<Rightarrow> run s' es)"

text \<open>
  Did the most recent test return ok? Reading the traffic from the most recent
  event back, the first event of a test decides: a response tells, a request still
  in flight or a failure does not count.
\<close>

fun last_test_ok :: "http_event list \<Rightarrow> bool" where
  "last_test_ok [] = False"
| "last_test_ok (TestResponded k # h) = k"
| "last_test_ok (TestRequested p # h) = False"
| "last_test_ok (TestFailed # h) = False"
| "last_test_ok (e # h) = last_test_ok h"

text \<open>Every activation request was sent when the most recent test had returned ok.\<close>

fun activations_guarded :: "http_event list \<Rightarrow> bool" where
  "activations_guarded [] = True"
| "activations_guarded (ActivateRequested p # h) = (last_test_ok h \<and> activations_guarded h)"
| "activations_guarded (e # h) = activations_guarded h"

text \<open>
  What every reachable state satisfies: the activation requests sent so far were
  guarded, and a test result that says ok is the answer of the most recent test.
\<close>

definition wizard_inv :: "wizard \<Rightarrow> bool" where
  "wizard_inv s = (activations_guarded (http s) \<and> (testResult_ok s \<longrightarrow> last_test_ok (http s)))"

text \<open>
  Is a test request, or an activation request, still unanswered? Reading the
  traffic from the most recent event back, the first event of the kind decides.
\<close>

fun test_in_flight :: "http_event list \<Rightarrow> bool" where
  "test_in_flight [] = False"
| "test_in_flight (TestRequested p # h) = True"
| "test_in_flight (TestResponded k # h) = False"
| "test_in_flight (TestFailed # h) = False"
| "test_in_flight (e # h) = test_in_flight h"

fun activate_in_flight :: "http_event list \<Rightarrow> bool" where
  "activate_in_flight [] = False"
| "activate_in_flight (ActivateRequested p # h) = True"
| "activate_in_flight (ActivateResponded # h) = False"
| "activate_in_flight (ActivateFailed # h) = False"
| "activate_in_flight (e # h) = activate_in_flight h"

definition flags_inv :: "wizard \<Rightarrow> bool" where
  "flags_inv s =
     ((isTesting s \<longleftrightarrow> test_in_flight (http s)) \<and>
      (isActivating s \<longleftrightarrow> activate_in_flight (http s)) \<and>
      \<not> (isTesting s \<and> isActivating s))"

section \<open>The ingestion path of the backend\<close>

text \<open>
  The connector (\<^verbatim>\<open>backend/app/opcua/connector.py\<close>) and the services it calls
  are not among the sources; the documents only quote fragments of them. The Router
  and the Detection Bridge below follow sections 3, 4.3, 4.4 and 6 of the
  specification. A node is the \<open>NodeConfig\<close> above, which has the fields section 3
  lists.
\<close>

subsection \<open>Storage layer and Ingestion Router\<close>

text \<open>Modelled from the spec: the Machine entity of section 3 (the storage schema is
  missing), keyed by routing tag.\<close>

record Machine =
  machine_id :: nat
  machine_tag :: string

text \<open>Modelled from the spec: the Sensor entity of section 3 (the storage schema is
  missing), keyed by alias and associated with a Machine.\<close>

record Sensor =
  sensor_id :: nat
  sensor_alias :: string
  sensor_machine :: nat

text \<open>Modelled from the spec: the quality indicator of a Sample, section 3 (the
  normalizer module is missing).\<close>

datatype quality = Good | Uncertain | Bad

text \<open>Modelled from the spec: the canonical Sample of section 3 (the normalizer module
  is missing); the value is \<open>None\<close> for the \<^verbatim>\<open>null\<close> of a reading that is not
  numeric, the timestamp is in milliseconds.\<close>

record Sample =
  s_alias :: string
  s_value :: "real option"
  s_unit :: string
  s_timestamp :: nat
  s_quality :: quality

text \<open>Modelled from the spec: a persisted sample of section 6 (the storage schema is
  missing), keyed by sensor and timestamp, with the metadata alias, unit and
  origin.\<close>

record SampleRow =
  row_sensor :: nat
  row_machine :: nat
  row_value :: "real option"
  row_timestamp :: nat
  row_alias :: string
  row_unit :: string
  row_origin :: string

text \<open>Modelled from the spec: the state of the storage layer (the persistence code is
  missing); each table in the order its rows were stored.\<close>

record storage =
  machines :: "Machine list"
  sensors :: "Sensor list"
  rows :: "SampleRow list"

text \<open>Modelled from the spec: the SourceConfig of section 3 (the registry module is
  missing); intervals and timeouts in milliseconds.\<close>

record SourceConfig =
  source_id :: string
  endpoint :: string
  namespace_scope :: nat
  polling_interval :: nat
  session_timeout :: nat
  credentials :: "(string \<times> string) option"
  source_nodes :: "NodeConfig list"
  routing_tag :: string
  active :: bool

text \<open>Modelled from the spec: \<^verbatim>\<open>getOrCreateMachine(tag) -> Machine\<close> of section 6
  (the machine service is missing): the Machine of the tag, created when there is
  none.\<close>

definition getOrCreateMachine :: "string \<Rightarrow> storage \<Rightarrow> Machine \<times> storage" where
  "getOrCreateMachine tag st =
     (case find (\<lambda>m. machine_tag m = tag) (machines st) of
        Some m \<Rightarrow> (m, st)
      | None \<Rightarrow>
          (let m = \<lparr>machine_id = length (machines st), machine_tag = tag\<rparr>
           in (m, st\<lparr>machines := machines st @ [m]\<rparr>)))"

text \<open>Modelled from the spec: \<^verbatim>\<open>getOrCreateSensor(alias, machineId) -> Sensor\<close> of
  section 6 (the sensor service is missing): the Sensor of the alias, created for
  the Machine when there is none.\<close>

definition getOrCreateSensor :: "string \<Rightarrow> nat \<Rightarrow> storage \<Rightarrow> Sensor \<times> storage" where
  "getOrCreateSensor a machineId st =
     (case find (\<lambda>s. sensor_alias s = a) (sensors st) of
        Some s \<Rightarrow> (s, st)
      | None \<Rightarrow>
          (let s = \<lparr>sensor_id = length (sensors st), sensor_alias = a,
                    sensor_machine = machineId\<rparr>
           in (s, st\<lparr>sensors := sensors st @ [s]\<rparr>)))"

text \<open>Modelled from the spec: \<^verbatim>\<open>latestTimestamp(sensorId) -> Timestamp?\<close> of
  section 6 (the sensor data service is missing): the timestamp of the most
  recently stored sample of the sensor.\<close>

definition latestTimestamp :: "nat \<Rightarrow> storage \<Rightarrow> nat option" where
  "latestTimestamp sensorId st =
     (case filter (\<lambda>r. row_sensor r = sensorId) (rows st) of
        [] \<Rightarrow> None
      | r # rs \<Rightarrow> Some (row_timestamp (last (r # rs))))"

text \<open>Modelled from the spec: \<^verbatim>\<open>insertSample\<close> of section 6 (the sensor data
  service is missing); \<open>None\<close> is a persistence failure, which happens when the
  store does not accept the write.\<close>

definition insertSample :: "bool \<Rightarrow> SampleRow \<Rightarrow> storage \<Rightarrow> storage option" where
  "insertSample accepts r st = (if accepts then Some (st\<lparr>rows := rows st @ [r]\<rparr>) else None)"

text \<open>Modelled from the spec: the error of \<^verbatim>\<open>route\<close>, sections 4.3 and 7 (the
  connector is missing).\<close>

datatype route_error = StorageError

text \<open>Modelled from the spec: the results of \<^verbatim>\<open>route\<close> that are not errors, section
  4.3 (the connector is missing): the sample was persisted, or discarded as a
  duplicate.\<close>

datatype route_result = Stored | NoOp

text \<open>Modelled from the spec: the number of stored rows of a sensor (the storage
  schema is missing).\<close>

definition row_count :: "nat \<Rightarrow> storage \<Rightarrow> nat" where
  "row_count sensorId st = length (filter (\<lambda>r. row_sensor r = sensorId) (rows st))"

text \<open>Modelled from the spec: \<^verbatim>\<open>route(source, node, sample)\<close>, the steps of section
  4.3 in their order (the connector's \<^verbatim>\<open>_route_sample\<close> is missing). The first
  argument says whether the store accepts the write.\<close>

definition route ::
  "bool \<Rightarrow> SourceConfig \<Rightarrow> NodeConfig \<Rightarrow> Sample \<Rightarrow> storage \<Rightarrow> (route_error + route_result) \<times> storage"
where
  "route accepts source node sample st =
     (let (machine, st1) = getOrCreateMachine (routing_tag source) st;
          (sensor, st2) = getOrCreateSensor (alias_n node) (machine_id machine) st1;
          duplicate = (case latestTimestamp (sensor_id sensor) st2 of
                         None \<Rightarrow> False
                       | Some t \<Rightarrow> s_timestamp sample \<le> t)
      in if duplicate then (Inr NoOp, st2)
         else (case insertSample accepts
                      \<lparr>row_sensor = sensor_id sensor, row_machine = machine_id machine,
                       row_value = s_value sample, row_timestamp = s_timestamp sample,
                       row_alias = s_alias sample, row_unit = s_unit sample,
                       row_origin = source_id source\<rparr> st2 of
                 None \<Rightarrow> (Inl StorageError, st2)
               | Some st3 \<Rightarrow> (Inr Stored, st3)))"

text \<open>Modelled from the spec: section 3's keys (the storage schema is missing): no
  two Machines with the same routing tag, no two Sensors with the same alias.\<close>

definition keys_distinct :: "storage \<Rightarrow> bool" where
  "keys_distinct st =
     (distinct (map machine_tag (machines st)) \<and> distinct (map sensor_alias (sensors st)))"

text \<open>Modelled from the spec: a sequence of \<^verbatim>\<open>route\<close> calls, one after the other (the
  connector's polling loop is missing); each call says whether the store accepts
  its write.\<close>

fun route_all ::
  "(bool \<times> SourceConfig \<times> NodeConfig \<times> Sample) list \<Rightarrow> storage \<Rightarrow> storage" where
  "route_all [] st = st"
| "route_all ((accepts, source, node, sample) # cs) st =
     route_all cs (snd (route accepts source node sample st))"

subsection \<open>Detection Bridge\<close>

text \<open>Modelled from the spec: the status of a verdict and of a Prediction, sections 3
  and 4.4 (the prediction service is missing).\<close>

datatype verdict_status = St_normal | St_warning | St_critical | St_buffering

text \<open>Modelled from the spec: the anomaly type of a verdict, section 4.4 (the
  prediction service is missing): the scorer's own types as
  OPCUA\_IMPLEMENTATION\_FLOW.md lists them, and the one that marks a verdict of the
  threshold rule.\<close>

datatype anomaly_type = AT_normal | AT_warning | AT_critical | AT_baseline | AT_threshold

text \<open>Modelled from the spec: the verdict of section 4.4 (the prediction service is
  missing).\<close>

record verdict =
  v_prediction :: string
  v_status :: verdict_status
  v_score :: real
  v_confidence :: real
  v_anomalyType :: anomaly_type
  v_rul :: real

text \<open>Modelled from the spec: the Prediction record of section 3 (the prediction table
  is missing).\<close>

record Prediction =
  p_sensor :: nat
  p_time :: nat
  p_score :: real
  p_confidence :: real
  p_status :: verdict_status
  p_rul :: real

text \<open>Modelled from the spec: the Alarm record of section 3 (the alarm table is
  missing); the back-reference is the position of its Prediction.\<close>

record Alarm =
  a_sensor :: nat
  a_severity :: verdict_status
  a_prediction :: nat

text \<open>Modelled from the spec: the failure of the scorer, section 7 (the AI client is
  missing).\<close>

datatype detection_error = DetectionError

text \<open>Modelled from the spec: the collaborators of the Bridge, section 6 (the AI
  service, the threshold rule and the notification sink are missing): the scorer,
  which may fail; the static threshold rule on a raw value and the node's declared
  min and max, whose cut-offs the specification leaves open; and the sink, which
  says whether the delivery succeeded.\<close>

record bridge_env =
  scorer :: "string \<Rightarrow> real option list \<Rightarrow> detection_error + verdict"
  threshold_rule :: "real option \<Rightarrow> jsnum option \<Rightarrow> jsnum option \<Rightarrow> verdict"
  notify :: "Alarm \<Rightarrow> bool"

text \<open>Modelled from the spec: the state of the Bridge, sections 3 and 4.4 (the bridge
  code is missing): the window of each sensor, absent until its first sample, the
  Predictions and Alarms in the order they were appended, and the alarms delivered
  to and refused by the sink.\<close>

record bridge =
  windows :: "nat \<Rightarrow> real option list option"
  predictions :: "Prediction list"
  alarms :: "Alarm list"
  notified :: "Alarm list"
  notify_failures :: "Alarm list"

text \<open>Modelled from the spec: the Bridge before its first sample (the bridge code is
  missing): no window, no record.\<close>

definition init_bridge :: bridge where
  "init_bridge = \<lparr>windows = (\<lambda>k. None), predictions = [], alarms = [], notified = [],
                   notify_failures = []\<rparr>"

text \<open>Modelled from the spec: the capacity of a DetectionWindow, sections 3 and 4.4
  (the bridge code is missing).\<close>

definition window_capacity :: nat where
  "window_capacity = 60"

text \<open>Modelled from the spec: the minimum number of buffered samples, section 4.4
  (the bridge code is missing).\<close>

definition min_samples :: nat where
  "min_samples = 12"

text \<open>Modelled from the spec: appending to a DetectionWindow, evicting the oldest value
  when it is full, section 4.4 (the bridge code is missing).\<close>

definition push_window :: "real option \<Rightarrow> real option list \<Rightarrow> real option list" where
  "push_window v w = (if window_capacity \<le> length w then tl w @ [v] else w @ [v])"

text \<open>Modelled from the spec: the window of a sensor, empty before its first sample,
  section 3 (the bridge code is missing).\<close>

definition window_of :: "bridge \<Rightarrow> nat \<Rightarrow> real option list" where
  "window_of b sensorId = (case windows b sensorId of None \<Rightarrow> [] | Some w \<Rightarrow> w)"

text \<open>Modelled from the spec: the degraded verdict of the fallback, section 4.4 (the
  bridge code is missing): the threshold rule's verdict with confidence 0 and the
  threshold-based anomaly type.\<close>

definition fallback_verdict :: "bridge_env \<Rightarrow> NodeConfig \<Rightarrow> Sample \<Rightarrow> verdict" where
  "fallback_verdict env node sample =
     (threshold_rule env (s_value sample) (min_val node) (max_val node))
       \<lparr>v_confidence := 0, v_anomalyType := AT_threshold\<rparr>"

text \<open>Modelled from the spec: what \<^verbatim>\<open>observe\<close> returns, section 4.4 (the bridge code
  is missing): the status \<^verbatim>\<open>buffering\<close>, or a verdict.\<close>

datatype observation = Buffering | Verdict verdict

text \<open>Modelled from the spec: the status that \<^verbatim>\<open>observe\<close> returns, section 4.4 (the
  bridge code is missing).\<close>

fun observation_status :: "observation \<Rightarrow> verdict_status" where
  "observation_status Buffering = St_buffering"
| "observation_status (Verdict v) = v_status v"

text \<open>Modelled from the spec: \<^verbatim>\<open>observe(sensorId, sample)\<close>, section 4.4 (the bridge
  code is missing), for the sample of a node.\<close>

definition observe ::
  "bridge_env \<Rightarrow> NodeConfig \<Rightarrow> nat \<Rightarrow> Sample \<Rightarrow> bridge \<Rightarrow> observation \<times> bridge"
where
  "observe env node sensorId sample b =
     (let w = push_window (s_value sample) (window_of b sensorId);
          b1 = b\<lparr>windows := (windows b)(sensorId \<mapsto> w)\<rparr>
      in if length w < min_samples then (Buffering, b1)
         else
           (let v = (case scorer env (s_alias sample) w of
                       Inr v \<Rightarrow> v
                     | Inl e \<Rightarrow> fallback_verdict env node sample);
                p = \<lparr>p_sensor = sensorId, p_time = s_timestamp sample, p_score = v_score v,
                     p_confidence = v_confidence v, p_status = v_status v, p_rul = v_rul v\<rparr>;
                b2 = b1\<lparr>predictions := predictions b1 @ [p]\<rparr>
            in if v_status v = St_warning \<or> v_status v = St_critical
               then
                 (let a = \<lparr>a_sensor = sensorId, a_severity = v_status v,
                           a_prediction = length (predictions b1)\<rparr>;
                      b3 = b2\<lparr>alarms := alarms b2 @ [a]\<rparr>
                  in (Verdict v,
                      if notify env a then b3\<lparr>notified := notified b3 @ [a]\<rparr>
                      else b3\<lparr>notify_failures := notify_failures b3 @ [a]\<rparr>))
               else (Verdict v, b2)))"

text \<open>Modelled from the spec: a sequence of \<^verbatim>\<open>observe\<close> calls, each for a node, a
  sensor and a sample (the connector's polling loop is missing).\<close>

fun observe_all ::
  "bridge_env \<Rightarrow> (NodeConfig \<times> nat \<times> Sample) list \<Rightarrow> bridge \<Rightarrow> bridge" where
  "observe_all env [] b = b"
| "observe_all env ((node, sensorId, sample) # cs) b =
     observe_all env cs (snd (observe env node sensorId sample b))"

text \<open>Modelled from the spec: the values that a sequence of \<^verbatim>\<open>observe\<close> calls hands
  in for one sensor, in order (the connector's polling loop is missing).\<close>

definition values_for :: "nat \<Rightarrow> (NodeConfig \<times> nat \<times> Sample) list \<Rightarrow> real option list" where
  "values_for sensorId cs =
     map (\<lambda>(node, k, sample). s_value sample) (filter (\<lambda>(node, k, sample). k = sensorId) cs)"

subsection \<open>Example values\<close>

text \<open>Modelled from the spec: a source as the wizard's payload describes it, a
  reading of its first node, a store that holds one reading, and collaborators
  whose scorer answers \<^verbatim>\<open>normal\<close> (the backend's registry, store and AI client
  are missing).\<close>

definition example_source :: SourceConfig where
  "example_source =
     \<lparr>source_id = ''opcua-1'', endpoint = default_endpoint, namespace_scope = 3,
      polling_interval = 1000, session_timeout = 60000, credentials = None,
      source_nodes = default_nodes, routing_tag = ''OPCUA-Simulation-Machine'',
      active = True\<rparr>"

definition example_sample :: "nat \<Rightarrow> Sample" where
  "example_sample t =
     \<lparr>s_alias = ''opcua_temperature'', s_value = Some 50, s_unit = [CHR 0xB0, CHR ''C''],
      s_timestamp = t, s_quality = Good\<rparr>"

definition example_storage :: storage where
  "example_storage =
     \<lparr>machines = [\<lparr>machine_id = 0, machine_tag = ''OPCUA-Simulation-Machine''\<rparr>],
      sensors = [\<lparr>sensor_id = 0, sensor_alias = ''opcua_temperature'', sensor_machine = 0\<rparr>],
      rows = [\<lparr>row_sensor = 0, row_machine = 0, row_value = Some 50, row_timestamp = 5000,
               row_alias = ''opcua_temperature'', row_unit = [CHR 0xB0, CHR ''C''],
               row_origin = ''opcua-1''\<rparr>]\<rparr>"

definition normal_verdict :: verdict where
  "normal_verdict =
     \<lparr>v_prediction = ''normal'', v_status = St_normal, v_score = 0, v_confidence = 1,
      v_anomalyType = AT_normal, v_rul = 100\<rparr>"

definition example_env :: bridge_env where
  "example_env =
     \<lparr>scorer = (\<lambda>a w. Inr normal_verdict),
      threshold_rule = (\<lambda>v lo hi. normal_verdict),
      notify = (\<lambda>a. True)\<rparr>"

section \<open>Properties of the wizard\<close>

subsection \<open>The request body\<close>

text \<open>
  Claim C10. For every node list, \<open>buildPayload\<close> emits one payload node for each
  configured node, in the same order. A payload node has the properties
  \<^verbatim>\<open>node_id\<close>, \<^verbatim>\<open>alias\<close>, \<^verbatim>\<open>unit\<close> and \<^verbatim>\<open>category\<close> and no other; an
  empty unit or category becomes \<^verbatim>\<open>undefined\<close>. The node's \<^verbatim>\<open>min\<close> and
  \<^verbatim>\<open>max\<close> are not among the properties, and the payload is the same whatever
  they are.
\<close>

theorem buildPayload_nodes:
  "\<exists>ps. js_get (buildPayload url ns) ''nodes'' = JArr ps \<and> length ps = length ns \<and>
     (\<forall>i<length ns.
        js_keys (ps ! i) = [''node_id'', ''alias'', ''unit'', ''category''] \<and>
        js_get (ps ! i) ''node_id'' = JStr (nodeId (ns ! i)) \<and>
        js_get (ps ! i) ''alias'' = JStr (alias_n (ns ! i)) \<and>
        js_get (ps ! i) ''unit'' = (if unit (ns ! i) = [] then JUndefined else JStr (unit (ns ! i))) \<and>
        js_get (ps ! i) ''category'' =
          (if category (ns ! i) = [] then JUndefined else JStr (category (ns ! i))) \<and>
        ''min'' \<notin> set (js_keys (ps ! i)) \<and> ''max'' \<notin> set (js_keys (ps ! i))) \<and>
     (\<forall>lo hi. buildPayload url (map (\<lambda>n. n\<lparr>min_val := lo n, max_val := hi n\<rparr>) ns) = buildPayload url ns)"
  by (simp add: buildPayload_def payloadNode_def or_undefined_def)

theorem buildPayload_nodes_witness:
  "\<exists>ps. js_get (buildPayload default_endpoint (addNode default_nodes)) ''nodes'' = JArr ps \<and>
     length ps = 6 \<and>
     js_keys (ps ! 0) = [''node_id'', ''alias'', ''unit'', ''category''] \<and>
     js_get (ps ! 0) ''node_id'' = JStr ''ns=3;i=1009'' \<and>
     js_get (ps ! 0) ''unit'' = JStr [CHR 0xB0, CHR ''C''] \<and>
     js_get (ps ! 5) ''alias'' = JStr '''' \<and>
     js_get (ps ! 5) ''unit'' = JUndefined \<and>
     js_get (ps ! 5) ''category'' = JUndefined"
proof -
  from buildPayload_nodes [of default_endpoint "addNode default_nodes"]
  obtain ps where a: "js_get (buildPayload default_endpoint (addNode default_nodes)) ''nodes'' = JArr ps"
    and l: "length ps = length (addNode default_nodes)"
    and b: "\<forall>i<length (addNode default_nodes).
        js_keys (ps ! i) = [''node_id'', ''alias'', ''unit'', ''category''] \<and>
        js_get (ps ! i) ''node_id'' = JStr (nodeId (addNode default_nodes ! i)) \<and>
        js_get (ps ! i) ''alias'' = JStr (alias_n (addNode default_nodes ! i)) \<and>
        js_get (ps ! i) ''unit'' = (if unit (addNode default_nodes ! i) = [] then JUndefined else JStr (unit (addNode default_nodes ! i))) \<and>
        js_get (ps ! i) ''category'' =
          (if category (addNode default_nodes ! i) = [] then JUndefined else JStr (category (addNode default_nodes ! i))) \<and>
        ''min'' \<notin> set (js_keys (ps ! i)) \<and> ''max'' \<notin> set (js_keys (ps ! i))"
    by blast
  have n: "length (addNode default_nodes) = 6" by (simp add: addNode_def default_nodes_def)
  from b n have b0: "js_keys (ps ! 0) = [''node_id'', ''alias'', ''unit'', ''category''] \<and>
        js_get (ps ! 0) ''node_id'' = JStr (nodeId (addNode default_nodes ! 0)) \<and>
        js_get (ps ! 0) ''unit'' = (if unit (addNode default_nodes ! 0) = [] then JUndefined else JStr (unit (addNode default_nodes ! 0)))"
    by simp
  from b n have b5: "js_get (ps ! 5) ''alias'' = JStr (alias_n (addNode default_nodes ! 5)) \<and>
        js_get (ps ! 5) ''unit'' = (if unit (addNode default_nodes ! 5) = [] then JUndefined else JStr (unit (addNode default_nodes ! 5))) \<and>
        js_get (ps ! 5) ''category'' =
          (if category (addNode default_nodes ! 5) = [] then JUndefined else JStr (category (addNode default_nodes ! 5)))"
    by simp
  have e0: "addNode default_nodes ! 0 = \<lparr>nodeId = ''ns=3;i=1009'', alias_n = ''opcua_temperature'', unit = [CHR 0xB0, CHR ''C''],
        category = ''temperature'', min_val = Some (Fin 0), max_val = Some (Fin 100)\<rparr>"
    by (simp add: addNode_def default_nodes_def)
  have e5: "addNode default_nodes ! 5 = \<lparr>nodeId = [], alias_n = [], unit = [], category = [],
                       min_val = Some (Fin 0), max_val = Some (Fin 100)\<rparr>"
    by (simp add: addNode_def default_nodes_def)
  show ?thesis using a l n b0 b5 by (simp add: e0 e5)
qed

subsection \<open>The status of a live value\<close>

text \<open>Rounding: where the exponent search ends, and what rounding does to a number
  that is at least the smallest double.\<close>

lemma pow2_powi: "pow2 e = 2 powi e"
  by (simp add: pow2_def power_int_def inverse_eq_divide power_one_over)

lemma pow2_pos: "0 < pow2 e"
  by (simp add: pow2_powi zero_less_power_int)

lemma pow2_add: "pow2 (a + b) = pow2 a * pow2 b"
  by (simp add: pow2_powi power_int_add)

lemma pow2_mono: "a \<le> b \<Longrightarrow> pow2 a \<le> pow2 b"
  by (simp add: pow2_powi power_int_increasing)

lemma pow2_of_int: "0 \<le> e \<Longrightarrow> pow2 e = of_int (2 ^ nat e)"
  by (simp add: pow2_def)

lemma expo_up_ge: "e \<le> expo_up k e a"
proof (induction k arbitrary: e)
  case 0
  show ?case by simp
next
  case (Suc k)
  have "e + 1 \<le> expo_up k (e + 1) a" by (rule Suc.IH)
  then show ?case by simp
qed

lemma expo_down_ge: "e - int k \<le> expo_down k e a"
proof (induction k arbitrary: e)
  case 0
  show ?case by simp
next
  case (Suc k)
  have "e - 1 - int k \<le> expo_down k (e - 1) a" by (rule Suc.IH)
  then show ?case by simp
qed

lemma expo_ge: "- 1022 \<le> expo a"
proof (cases "1 \<le> a")
  case True
  have "0 \<le> expo_up 1023 0 a" by (rule expo_up_ge)
  with True show ?thesis by (simp add: expo_def)
next
  case False
  have "0 - int 1022 \<le> expo_down 1022 0 a" by (rule expo_down_ge)
  with False show ?thesis by (simp add: expo_def)
qed

lemma expo_up_le: "pow2 e \<le> a \<Longrightarrow> pow2 (expo_up k e a) \<le> a"
  by (induction k arbitrary: e) simp_all

lemma expo_down_le: "pow2 (expo_down k e a) \<le> a \<or> expo_down k e a = e - int k"
proof (induction k arbitrary: e)
  case 0
  show ?case by simp
next
  case (Suc k)
  from Suc.IH [of "e - 1"] show ?case by auto
qed

lemma expo_quantum:
  assumes "pow2 (- 1074) \<le> a"
  shows "pow2 (expo a - 52) \<le> a"
proof (cases "1 \<le> a")
  case True
  then have "pow2 0 \<le> a" by (simp add: pow2_def)
  then have "pow2 (expo_up 1023 0 a) \<le> a" by (rule expo_up_le)
  then have "pow2 (expo a) \<le> a" using True by (simp add: expo_def)
  moreover have "pow2 (expo a - 52) \<le> pow2 (expo a)" by (rule pow2_mono) simp
  ultimately show ?thesis by simp
next
  case False
  from expo_down_le [of 1022 0 a] False
  have "pow2 (expo a) \<le> a \<or> expo a = - 1022" by (simp add: expo_def)
  then show ?thesis
  proof
    assume "pow2 (expo a) \<le> a"
    moreover have "pow2 (expo a - 52) \<le> pow2 (expo a)" by (rule pow2_mono) simp
    ultimately show ?thesis by simp
  next
    assume "expo a = - 1022"
    then show ?thesis using assms by simp
  qed
qed

lemma rhe_ge_floor: "\<lfloor>t\<rfloor> \<le> rhe t"
  by (simp add: rhe_def Let_def)

lemma rhe_ge1: "1 \<le> t \<Longrightarrow> 1 \<le> rhe t"
proof -
  assume "1 \<le> t"
  then have "1 \<le> \<lfloor>t\<rfloor>" by (simp add: le_floor_iff)
  with rhe_ge_floor [of t] show ?thesis by linarith
qed

lemma round64_unfold:
  assumes "r \<noteq> 0" and "q = pow2 (expo \<bar>r\<bar> - 52)" and "n = rhe (\<bar>r\<bar> / q)"
  shows "round64 r =
     (if pow2 1024 \<le> of_int n * q then (if r < 0 then NegInf else PosInf)
      else if n = 0 then (if r < 0 then NegZero else Fin 0)
      else Fin (if r < 0 then - (of_int n * q) else of_int n * q))"
  unfolding assms(3) assms(2) using assms(1) by (simp add: round64_def Let_def)

lemma round64_pos:
  assumes "pow2 (- 1074) \<le> r"
  shows "round64 r = PosInf \<or> (\<exists>z. 0 < z \<and> round64 r = Fin z)"
proof -
  have r: "0 < r" using assms pow2_pos [of "- 1074"] by simp
  define q where "q = pow2 (expo \<bar>r\<bar> - 52)"
  define n where "n = rhe (\<bar>r\<bar> / q)"
  have q: "0 < q" by (simp add: q_def pow2_pos)
  have "q \<le> \<bar>r\<bar>" unfolding q_def using assms r by (intro expo_quantum) simp
  then have "1 \<le> \<bar>r\<bar> / q" using q by simp
  then have n: "1 \<le> n" unfolding n_def by (rule rhe_ge1)
  then have m: "0 < of_int n * q" using q by simp
  have "round64 r = (if pow2 1024 \<le> of_int n * q then PosInf else Fin (of_int n * q))"
    using round64_unfold [OF _ q_def n_def] r n by simp
  with m show ?thesis by auto
qed

lemma round64_neg:
  assumes "pow2 (- 1074) \<le> - r"
  shows "round64 r = NegInf \<or> (\<exists>z. z < 0 \<and> round64 r = Fin z)"
proof -
  have r: "r < 0" using assms pow2_pos [of "- 1074"] by simp
  define q where "q = pow2 (expo \<bar>r\<bar> - 52)"
  define n where "n = rhe (\<bar>r\<bar> / q)"
  have q: "0 < q" by (simp add: q_def pow2_pos)
  have "q \<le> \<bar>r\<bar>" unfolding q_def using assms r by (intro expo_quantum) simp
  then have "1 \<le> \<bar>r\<bar> / q" using q by simp
  then have n: "1 \<le> n" unfolding n_def by (rule rhe_ge1)
  then have m: "0 < of_int n * q" using q by simp
  have "round64 r = (if pow2 1024 \<le> of_int n * q then NegInf else Fin (- (of_int n * q)))"
    using round64_unfold [OF _ q_def n_def] r n by simp
  with m show ?thesis by auto
qed

lemma double_grid:
  assumes "round64 x = Fin x"
  shows "\<exists>k::int. x = of_int k * pow2 (- 1074)"
proof (cases "x = 0")
  case True
  then have "x = of_int 0 * pow2 (- 1074)" by simp
  then show ?thesis by blast
next
  case False
  define e where "e = expo \<bar>x\<bar>"
  define q where "q = pow2 (expo \<bar>x\<bar> - 52)"
  define n where "n = rhe (\<bar>x\<bar> / q)"
  have e: "0 \<le> e + 1022" using expo_ge [of "\<bar>x\<bar>"] by (simp add: e_def)
  have q: "q = of_int (2 ^ nat (e + 1022)) * pow2 (- 1074)"
  proof -
    have "q = pow2 ((e + 1022) + (- 1074))" by (simp add: q_def e_def)
    also have "\<dots> = pow2 (e + 1022) * pow2 (- 1074)" by (rule pow2_add)
    finally show ?thesis using e by (simp add: pow2_of_int)
  qed
  from assms False round64_unfold [OF False q_def n_def]
  have "x = (if x < 0 then - (of_int n * q) else of_int n * q)"
    by (auto split: if_splits)
  then have "x = of_int (if x < 0 then - (n * 2 ^ nat (e + 1022)) else n * 2 ^ nat (e + 1022)) * pow2 (- 1074)"
    by (simp add: q split: if_splits)
  then show ?thesis by blast
qed

lemma grid_apart:
  fixes g :: real
  assumes "x = of_int k * g" and "y = of_int l * g" and "y < x" and "0 < g"
  shows "g \<le> x - y"
proof -
  have "x - y = of_int (k - l) * g" using assms(1,2) by (simp add: algebra_simps)
  moreover have "0 < of_int (k - l) * g" using assms by (simp add: algebra_simps)
  then have "0 < k - l" using assms(4) by (simp add: zero_less_mult_iff)
  then have "(1::real) \<le> of_int (k - l)" by linarith
  then have "1 * g \<le> of_int (k - l) * g" using assms(4) by (intro mult_right_mono) simp_all
  ultimately show ?thesis by simp
qed

lemma round64_diff_pos:
  assumes "round64 x = Fin x" and "round64 y = Fin y" and "y < x"
  shows "round64 (x - y) = PosInf \<or> (\<exists>z. 0 < z \<and> round64 (x - y) = Fin z)"
proof -
  from double_grid [OF assms(1)] obtain k :: int where k: "x = of_int k * pow2 (- 1074)" ..
  from double_grid [OF assms(2)] obtain l :: int where l: "y = of_int l * pow2 (- 1074)" ..
  have "pow2 (- 1074) \<le> x - y" using k l assms(3) pow2_pos by (rule grid_apart)
  then show ?thesis by (rule round64_pos)
qed

lemma round64_diff_neg:
  assumes "round64 x = Fin x" and "round64 y = Fin y" and "x < y"
  shows "round64 (x - y) = NegInf \<or> (\<exists>z. z < 0 \<and> round64 (x - y) = Fin z)"
proof -
  from double_grid [OF assms(1)] obtain k :: int where k: "x = of_int k * pow2 (- 1074)" ..
  from double_grid [OF assms(2)] obtain l :: int where l: "y = of_int l * pow2 (- 1074)" ..
  have "pow2 (- 1074) \<le> y - x" using l k assms(3) pow2_pos by (rule grid_apart)
  then have "pow2 (- 1074) \<le> - (x - y)" by simp
  then show ?thesis by (rule round64_neg)
qed

lemma round64_zero: "round64 0 = Fin 0"
  by (simp add: round64_def)

text \<open>The difference of two doubles that differ is not zero, so its quotient by a zero
  is an infinity.\<close>

lemma js_sub_above:
  assumes "js_double v" and "js_double lo" and "js_finite lo" and "js_gt v lo"
  shows "js_above_zero (js_sub v lo)"
proof (cases v)
  case (Fin x)
  show ?thesis
  proof (cases lo)
    case (Fin m)
    from assms \<open>v = Fin x\<close> Fin have "round64 x = Fin x" "round64 m = Fin m" "m < x"
      by (simp_all add: js_double_def js_gt_def)
    from round64_diff_pos [OF this] show ?thesis
      using \<open>v = Fin x\<close> Fin by (auto simp: js_above_zero_def)
  next
    case NegZero
    from assms \<open>v = Fin x\<close> NegZero have "round64 x = Fin x" "0 < x"
      by (simp_all add: js_double_def js_gt_def)
    then show ?thesis using \<open>v = Fin x\<close> NegZero by (simp add: js_above_zero_def)
  qed (use assms in \<open>simp_all add: js_finite_def\<close>)
next
  case NegZero
  show ?thesis
  proof (cases lo)
    case (Fin m)
    from assms \<open>v = NegZero\<close> Fin have m: "round64 m = Fin m" "m < 0"
      by (simp_all add: js_double_def js_gt_def)
    from round64_diff_pos [OF round64_zero m] show ?thesis
      using \<open>v = NegZero\<close> Fin m by (auto simp: js_above_zero_def)
  qed (use assms \<open>v = NegZero\<close> in \<open>simp_all add: js_finite_def js_gt_def\<close>)
next
  case PosInf
  then show ?thesis using assms by (cases lo) (simp_all add: js_finite_def js_above_zero_def)
next
  case NegInf
  then show ?thesis using assms by (cases lo) (simp_all add: js_gt_def)
next
  case NaN
  then show ?thesis using assms by (cases lo) (simp_all add: js_gt_def)
qed

lemma js_sub_below:
  assumes "js_double v" and "js_double lo" and "js_finite lo" and "js_gt lo v"
  shows "js_below_zero (js_sub v lo)"
proof (cases v)
  case (Fin x)
  show ?thesis
  proof (cases lo)
    case (Fin m)
    from assms \<open>v = Fin x\<close> Fin have "round64 x = Fin x" "round64 m = Fin m" "x < m"
      by (simp_all add: js_double_def js_gt_def)
    from round64_diff_neg [OF this] show ?thesis
      using \<open>v = Fin x\<close> Fin by (auto simp: js_below_zero_def)
  next
    case NegZero
    from assms \<open>v = Fin x\<close> NegZero have "round64 x = Fin x" "x < 0"
      by (simp_all add: js_double_def js_gt_def)
    then show ?thesis using \<open>v = Fin x\<close> NegZero by (simp add: js_below_zero_def)
  qed (use assms in \<open>simp_all add: js_finite_def\<close>)
next
  case NegZero
  show ?thesis
  proof (cases lo)
    case (Fin m)
    from assms \<open>v = NegZero\<close> Fin have m: "round64 m = Fin m" "0 < m"
      by (simp_all add: js_double_def js_gt_def)
    from round64_diff_neg [OF round64_zero m] show ?thesis
      using \<open>v = NegZero\<close> Fin m by (auto simp: js_below_zero_def)
  qed (use assms \<open>v = NegZero\<close> in \<open>simp_all add: js_finite_def js_gt_def\<close>)
next
  case PosInf
  then show ?thesis using assms by (cases lo) (simp_all add: js_gt_def)
next
  case NegInf
  then show ?thesis using assms by (cases lo) (simp_all add: js_finite_def js_below_zero_def)
next
  case NaN
  then show ?thesis using assms by (cases lo) (simp_all add: js_gt_def)
qed

lemma js_sub_level:
  assumes "js_finite lo" and "\<not> js_gt v lo" and "\<not> js_gt lo v"
  shows "js_is_zero (js_sub v lo) \<or> js_sub v lo = NaN"
proof (cases v)
  case (Fin x)
  then show ?thesis using assms
    by (cases lo) (auto simp: js_finite_def js_gt_def round64_zero)
next
  case NegZero
  then show ?thesis using assms
    by (cases lo) (auto simp: js_finite_def js_gt_def round64_zero)
next
  case PosInf
  then show ?thesis using assms by (cases lo) (simp_all add: js_finite_def js_gt_def)
next
  case NegInf
  then show ?thesis using assms by (cases lo) (simp_all add: js_finite_def js_gt_def)
next
  case NaN
  then show ?thesis by simp
qed

lemma zero_range:
  assumes "js_finite lo" and "js_finite hi" and "js_value hi = js_value lo"
  shows "js_sub hi lo = (if hi = NegZero \<and> lo = Fin 0 then NegZero else Fin 0)"
  using assms by (cases hi; cases lo) (auto simp: js_finite_def round64_zero)

lemma percentage_above:
  "js_above_zero d \<Longrightarrow> js_mul (js_div d (Fin 0)) (Fin 100) = PosInf"
  "js_above_zero d \<Longrightarrow> js_mul (js_div d NegZero) (Fin 100) = NegInf"
  by (cases d; simp add: js_above_zero_def signed_inf_def)+

lemma percentage_below:
  "js_below_zero d \<Longrightarrow> js_mul (js_div d (Fin 0)) (Fin 100) = NegInf"
  "js_below_zero d \<Longrightarrow> js_mul (js_div d NegZero) (Fin 100) = PosInf"
  by (cases d; simp add: js_below_zero_def signed_inf_def)+

lemma percentage_level:
  "js_is_zero d \<or> d = NaN \<Longrightarrow> js_mul (js_div d (Fin 0)) (Fin 100) = NaN"
  "js_is_zero d \<or> d = NaN \<Longrightarrow> js_mul (js_div d NegZero) (Fin 100) = NaN"
  by (cases d; simp)+

lemma js_gt_asym: "js_gt x y \<Longrightarrow> \<not> js_gt y x"
  by (simp add: js_gt_def)

lemma zero_width_percentage:
  assumes "js_finite lo" and "js_finite hi" and "js_value hi = js_value lo"
    and "js_double lo" and "js_double v"
  shows "percentage lo hi v =
     (if hi = NegZero \<and> lo = Fin 0
      then (if js_gt lo v then PosInf else if js_gt v lo then NegInf else NaN)
      else (if js_gt v lo then PosInf else if js_gt lo v then NegInf else NaN))"
proof (cases "hi = NegZero \<and> lo = Fin 0")
  case True
  with zero_range [OF assms(1,2,3)] have "js_sub hi lo = NegZero" by simp
  then have p: "percentage lo hi v = js_mul (js_div (js_sub v lo) NegZero) (Fin 100)"
    by (simp add: percentage_def)
  consider "js_gt v lo" | "js_gt lo v" | "\<not> js_gt v lo" "\<not> js_gt lo v" by blast
  then show ?thesis
  proof cases
    case 1
    have "percentage lo hi v = NegInf"
      unfolding p by (rule percentage_above(2) [OF js_sub_above [OF assms(5,4,1) 1]])
    then show ?thesis using True 1 js_gt_asym [OF 1] by simp
  next
    case 2
    have "percentage lo hi v = PosInf"
      unfolding p by (rule percentage_below(2) [OF js_sub_below [OF assms(5,4,1) 2]])
    then show ?thesis using True 2 by simp
  next
    case 3
    have "percentage lo hi v = NaN"
      unfolding p by (rule percentage_level(2) [OF js_sub_level [OF assms(1) 3]])
    then show ?thesis using True 3 by simp
  qed
next
  case False
  with zero_range [OF assms(1,2,3)] have "js_sub hi lo = Fin 0" by simp
  then have p: "percentage lo hi v = js_mul (js_div (js_sub v lo) (Fin 0)) (Fin 100)"
    by (simp add: percentage_def)
  consider "js_gt v lo" | "js_gt lo v" | "\<not> js_gt v lo" "\<not> js_gt lo v" by blast
  then show ?thesis
  proof cases
    case 1
    have "percentage lo hi v = PosInf"
      unfolding p by (rule percentage_above(1) [OF js_sub_above [OF assms(5,4,1) 1]])
    then show ?thesis using False 1 by simp
  next
    case 2
    have "percentage lo hi v = NegInf"
      unfolding p by (rule percentage_below(1) [OF js_sub_below [OF assms(5,4,1) 2]])
    then show ?thesis using False 2 js_gt_asym [OF 2] by simp
  next
    case 3
    have "percentage lo hi v = NaN"
      unfolding p by (rule percentage_level(1) [OF js_sub_level [OF assms(1) 3]])
    then show ?thesis using False 3 by simp
  qed
qed

lemma status_no_node:
  "find (\<lambda>n. alias_n n = a) ns = None \<Longrightarrow> getStatusForValue ns a v = Normal"
  by (simp add: getStatusForValue_def)

lemma status_undefined_bound:
  "find (\<lambda>n. alias_n n = a) ns = Some node \<Longrightarrow> min_val node = None \<or> max_val node = None
   \<Longrightarrow> getStatusForValue ns a v = Normal"
  by (auto simp: getStatusForValue_def split: option.splits)

lemma status_by_percentage:
  assumes "find (\<lambda>n. alias_n n = a) ns = Some node"
    and "min_val node = Some lo" and "max_val node = Some hi"
  shows "getStatusForValue ns a v =
     (if js_ge (percentage lo hi v) (Fin 90) then Critical
      else if js_ge (percentage lo hi v) (Fin 70) then Warning
      else Normal)"
  using assms by (simp add: getStatusForValue_def percentage_def Let_def)

lemma js_ge_90_70: "js_ge p (Fin 90) \<Longrightarrow> js_ge p (Fin 70)"
  by (cases p) simp_all

text \<open>Evaluating the rounding at given numbers.\<close>

lemma round64_eval:
  assumes "0 < r" and "expo r = e" and "rhe (r / pow2 (e - 52)) = n" and "n \<noteq> 0"
    and "\<not> pow2 1024 \<le> of_int n * pow2 (e - 52)" and "z = of_int n * pow2 (e - 52)"
  shows "round64 r = Fin z"
  using assms by (simp add: round64_def Let_def)

lemma expo_up_numeral:
  "expo_up (numeral k) e a =
     (if pow2 (e + 1) \<le> a then expo_up (pred_numeral k) (e + 1) a else e)"
  by (simp only: numeral_eq_Suc expo_up.simps)

lemma expo_down_numeral:
  "expo_down (numeral k) e a = (if pow2 e \<le> a then e else expo_down (pred_numeral k) (e - 1) a)"
  by (simp only: numeral_eq_Suc expo_down.simps)

lemmas eval64 = expo_def pow2_def rhe_def Let_def expo_up_numeral expo_down_numeral

lemma round64_1: "round64 1 = Fin 1"
  by (rule round64_eval [where e = 0 and n = 4503599627370496]) (simp_all add: eval64)

lemma round64_7: "round64 7 = Fin 7"
  by (rule round64_eval [where e = 2 and n = 7881299347898368]) (simp_all add: eval64)

lemma round64_8: "round64 8 = Fin 8"
  by (rule round64_eval [where e = 3 and n = 4503599627370496]) (simp_all add: eval64)

lemma round64_10: "round64 10 = Fin 10"
  by (rule round64_eval [where e = 3 and n = 5629499534213120]) (simp_all add: eval64)

lemma round64_50: "round64 50 = Fin 50"
  by (rule round64_eval [where e = 5 and n = 7036874417766400]) (simp_all add: eval64)

lemma round64_100: "round64 100 = Fin 100"
  by (rule round64_eval [where e = 6 and n = 7036874417766400]) (simp_all add: eval64)

lemma round64_150: "round64 150 = Fin 150"
  by (rule round64_eval [where e = 7 and n = 5277655813324800]) (simp_all add: eval64)

text \<open>The doubles that the literals \<^verbatim>\<open>0.8\<close>, \<^verbatim>\<open>0.7\<close> and \<^verbatim>\<open>6.3\<close> denote, and
  the quotient of the last by 7, which is the double of \<^verbatim>\<open>0.9\<close>.\<close>

lemma round64_8_10: "round64 (8 / 10) = Fin (3602879701896397 / 2 ^ 52)"
  by (rule round64_eval [where e = "- 1" and n = 7205759403792794]) (simp_all add: eval64)

lemma round64_7_10: "round64 (7 / 10) = Fin (3152519739159347 / 2 ^ 52)"
  by (rule round64_eval [where e = "- 1" and n = 6305039478318694]) (simp_all add: eval64)

lemma round64_63_10: "round64 (63 / 10) = Fin (7093169413108531 / 2 ^ 50)"
  by (rule round64_eval [where e = 2 and n = 7093169413108531]) (simp_all add: eval64)

lemma double_7_10: "round64 (3152519739159347 / 2 ^ 52) = Fin (3152519739159347 / 2 ^ 52)"
  by (rule round64_eval [where e = "- 1" and n = 6305039478318694]) (simp_all add: eval64)

lemma double_63_10: "round64 (7093169413108531 / 2 ^ 50) = Fin (7093169413108531 / 2 ^ 50)"
  by (rule round64_eval [where e = 2 and n = 7093169413108531]) (simp_all add: eval64)

lemma round64_63_10_by_7:
  "round64 (7093169413108531 / 2 ^ 50 / 7) = Fin (8106479329266893 / 2 ^ 53)"
  by (rule round64_eval [where e = "- 1" and n = 8106479329266893]) (simp_all add: eval64)

lemma round64_times_100:
  "round64 (3602879701896397 / 2 ^ 52 * 100) = Fin 80"
  "round64 (3152519739159347 / 2 ^ 52 * 100) = Fin 70"
  "round64 (8106479329266893 / 2 ^ 53 * 100) = Fin 90"
  by (rule round64_eval [where e = 6 and n = 5629499534213120], simp_all add: eval64)
     (rule round64_eval [where e = 6 and n = 4925812092436480], simp_all add: eval64,
      rule round64_eval [where e = 6 and n = 6333186975989760], simp_all add: eval64)

lemma percentage_8_of_10: "percentage (Fin 0) (Fin 10) (Fin 8) = Fin 80"
proof -
  have "js_sub (Fin 8) (Fin 0) = Fin 8" by (simp add: round64_8)
  moreover have "js_sub (Fin 10) (Fin 0) = Fin 10" by (simp add: round64_10)
  moreover have "js_div (Fin 8) (Fin 10) = round64 (8 / 10)" by simp
  moreover have "js_mul (Fin (3602879701896397 / 2 ^ 52)) (Fin 100) =
                 round64 (3602879701896397 / 2 ^ 52 * 100)" by simp
  ultimately show ?thesis
    by (simp only: percentage_def round64_8_10 round64_times_100)
qed

text \<open>
  Two inputs where rounding decides. In binary64, \<^verbatim>\<open>6.3 / 7 * 100\<close> is 90 and the
  status for the range from 0 to 7 is \<open>Critical\<close>, although the double \<^verbatim>\<open>6.3\<close>
  lies below nine tenths of 7; \<^verbatim>\<open>0.7 / 1 * 100\<close> is 70 and the status for the
  range from 0 to 1 is \<open>Warning\<close>, although the double \<^verbatim>\<open>0.7\<close> lies below seven
  tenths.
\<close>

lemma percentage_63_of_7:
  "percentage (Fin 0) (Fin 7) (round64 (63 / 10)) = Fin 90"
proof -
  have "js_sub (Fin (7093169413108531 / 2 ^ 50)) (Fin 0) = round64 (7093169413108531 / 2 ^ 50)"
    by simp
  moreover have "js_sub (Fin 7) (Fin 0) = Fin 7" by (simp add: round64_7)
  moreover have "js_div (Fin (7093169413108531 / 2 ^ 50)) (Fin 7) =
                 round64 (7093169413108531 / 2 ^ 50 / 7)" by simp
  moreover have "js_mul (Fin (8106479329266893 / 2 ^ 53)) (Fin 100) =
                 round64 (8106479329266893 / 2 ^ 53 * 100)" by simp
  ultimately show ?thesis
    by (simp only: percentage_def round64_63_10 double_63_10 round64_63_10_by_7
          round64_times_100)
qed

lemma percentage_7_of_1:
  "percentage (Fin 0) (Fin 1) (round64 (7 / 10)) = Fin 70"
proof -
  have "js_sub (Fin (3152519739159347 / 2 ^ 52)) (Fin 0) = round64 (3152519739159347 / 2 ^ 52)"
    by simp
  moreover have "js_sub (Fin 1) (Fin 0) = Fin 1" by (simp add: round64_1)
  moreover have "js_div (Fin (3152519739159347 / 2 ^ 52)) (Fin 1) =
                 round64 (3152519739159347 / 2 ^ 52)" by simp
  moreover have "js_mul (Fin (3152519739159347 / 2 ^ 52)) (Fin 100) =
                 round64 (3152519739159347 / 2 ^ 52 * 100)" by simp
  ultimately show ?thesis
    by (simp only: percentage_def round64_7_10 double_7_10 round64_times_100)
qed

lemma status_where_rounding_decides:
  "getStatusForValue
     [\<lparr>nodeId = ''n'', alias_n = ''a'', unit = [], category = [],
       min_val = Some (Fin 0), max_val = Some (Fin 7)\<rparr>] ''a'' (round64 (63 / 10)) = Critical"
  "round64 (63 / 10) = Fin (7093169413108531 / 2 ^ 50) \<and>
     7093169413108531 / 2 ^ 50 < 0 + 9 / 10 * ((7::real) - 0)"
  "getStatusForValue
     [\<lparr>nodeId = ''n'', alias_n = ''a'', unit = [], category = [],
       min_val = Some (Fin 0), max_val = Some (Fin 1)\<rparr>] ''a'' (round64 (7 / 10)) = Warning"
  "round64 (7 / 10) = Fin (3152519739159347 / 2 ^ 52) \<and>
     3152519739159347 / 2 ^ 52 < 0 + 7 / 10 * ((1::real) - 0)"
proof -
  have e: "\<And>lo hi v. getStatusForValue
     [\<lparr>nodeId = ''n'', alias_n = ''a'', unit = [], category = [],
       min_val = Some lo, max_val = Some hi\<rparr>] ''a'' v =
     (if js_ge (percentage lo hi v) (Fin 90) then Critical
      else if js_ge (percentage lo hi v) (Fin 70) then Warning else Normal)"
    by (simp add: getStatusForValue_def percentage_def Let_def)
  show "getStatusForValue
     [\<lparr>nodeId = ''n'', alias_n = ''a'', unit = [], category = [],
       min_val = Some (Fin 0), max_val = Some (Fin 7)\<rparr>] ''a'' (round64 (63 / 10)) = Critical"
    by (simp only: e percentage_63_of_7) simp
  show "getStatusForValue
     [\<lparr>nodeId = ''n'', alias_n = ''a'', unit = [], category = [],
       min_val = Some (Fin 0), max_val = Some (Fin 1)\<rparr>] ''a'' (round64 (7 / 10)) = Warning"
    by (simp only: e percentage_7_of_1) simp
  show "round64 (63 / 10) = Fin (7093169413108531 / 2 ^ 50) \<and>
     7093169413108531 / 2 ^ 50 < 0 + 9 / 10 * ((7::real) - 0)"
    by (simp add: round64_63_10)
  show "round64 (7 / 10) = Fin (3152519739159347 / 2 ^ 52) \<and>
     3152519739159347 / 2 ^ 52 < 0 + 7 / 10 * ((1::real) - 0)"
    by (simp add: round64_7_10)
qed

text \<open>
  Claim C8, as amended. \<open>getStatusForValue\<close> returns a status for every alias and
  every number, NaN and the infinities included, and never throws. It is \<open>Normal\<close>
  when no node has the alias, and when the node's \<^verbatim>\<open>min\<close> or \<^verbatim>\<open>max\<close> is
  \<^verbatim>\<open>undefined\<close>. Otherwise it is \<open>Critical\<close> exactly when the percentage
  \<^verbatim>\<open>((value - min) / (max - min)) * 100\<close>, as double arithmetic computes it, is
  at least 90, \<open>Warning\<close> exactly when it is at least 70 and not at least 90, and
  \<open>Normal\<close> otherwise, which is the case for a value or a percentage that is NaN.
  For a range of width zero (\<^verbatim>\<open>max\<close> equal to \<^verbatim>\<open>min\<close>, both finite) it is
  \<open>Critical\<close> when the value is greater than \<^verbatim>\<open>min\<close> and \<open>Normal\<close> when it is
  not; only for \<^verbatim>\<open>max = -0\<close> with \<^verbatim>\<open>min = +0\<close> the range is \<^verbatim>\<open>-0\<close> and
  it is \<open>Critical\<close> when the value is less than \<^verbatim>\<open>min\<close>.
\<close>

theorem getStatusForValue_cases:
  "(find (\<lambda>n. alias_n n = a) ns = None \<longrightarrow> getStatusForValue ns a v = Normal) \<and>
   (\<forall>node. find (\<lambda>n. alias_n n = a) ns = Some node \<longrightarrow>
      (min_val node = None \<or> max_val node = None \<longrightarrow> getStatusForValue ns a v = Normal) \<and>
      (\<forall>lo hi. min_val node = Some lo \<and> max_val node = Some hi \<longrightarrow>
         (getStatusForValue ns a v = Critical \<longleftrightarrow> js_ge (percentage lo hi v) (Fin 90)) \<and>
         (getStatusForValue ns a v = Warning \<longleftrightarrow>
            js_ge (percentage lo hi v) (Fin 70) \<and> \<not> js_ge (percentage lo hi v) (Fin 90)) \<and>
         (getStatusForValue ns a v = Normal \<longleftrightarrow> \<not> js_ge (percentage lo hi v) (Fin 70)) \<and>
         (v = NaN \<longrightarrow> getStatusForValue ns a v = Normal) \<and>
         (js_finite lo \<and> js_finite hi \<and> js_value hi = js_value lo \<and> js_double lo \<and> js_double v \<longrightarrow>
            getStatusForValue ns a v \<noteq> Warning \<and>
            (getStatusForValue ns a v = Critical \<longleftrightarrow>
               (if hi = NegZero \<and> lo = Fin 0 then js_gt lo v else js_gt v lo)))))"
proof (intro conjI allI impI)
  assume "find (\<lambda>n. alias_n n = a) ns = None"
  then show "getStatusForValue ns a v = Normal" by (rule status_no_node)
next
  fix node
  assume "find (\<lambda>n. alias_n n = a) ns = Some node" "min_val node = None \<or> max_val node = None"
  then show "getStatusForValue ns a v = Normal" by (rule status_undefined_bound)
next
  fix node lo hi
  assume f: "find (\<lambda>n. alias_n n = a) ns = Some node"
    and b: "min_val node = Some lo \<and> max_val node = Some hi"
  from b have lo: "min_val node = Some lo" and hi: "max_val node = Some hi" by simp_all
  note e = status_by_percentage [OF f lo hi, of v]
  show "(getStatusForValue ns a v = Critical) = js_ge (percentage lo hi v) (Fin 90)"
    using e by simp
  show "(getStatusForValue ns a v = Warning) =
        (js_ge (percentage lo hi v) (Fin 70) \<and> \<not> js_ge (percentage lo hi v) (Fin 90))"
    using e by auto
  show "(getStatusForValue ns a v = Normal) = (\<not> js_ge (percentage lo hi v) (Fin 70))"
    using e js_ge_90_70 [of "percentage lo hi v"] by auto
  { assume "v = NaN"
    then show "getStatusForValue ns a v = Normal" using e by (simp add: percentage_def) }
  { assume z: "js_finite lo \<and> js_finite hi \<and> js_value hi = js_value lo \<and> js_double lo \<and> js_double v"
    then have p: "percentage lo hi v =
       (if hi = NegZero \<and> lo = Fin 0
        then (if js_gt lo v then PosInf else if js_gt v lo then NegInf else NaN)
        else (if js_gt v lo then PosInf else if js_gt lo v then NegInf else NaN))"
      by (intro zero_width_percentage) simp_all
    show "getStatusForValue ns a v \<noteq> Warning"
      using e by (simp add: p)
    show "(getStatusForValue ns a v = Critical) =
          (if hi = NegZero \<and> lo = Fin 0 then js_gt lo v else js_gt v lo)"
      using e js_gt_asym [of lo v] js_gt_asym [of v lo] by (auto simp: p) }
qed

theorem getStatusForValue_cases_witness:
  "find (\<lambda>n. alias_n n = ''opcua_temperature'')
     [\<lparr>nodeId = ''ns=3;i=1009'', alias_n = ''opcua_temperature'', unit = [CHR 0xB0, CHR ''C''],
       category = ''temperature'', min_val = Some (Fin 0), max_val = Some (Fin 7)\<rparr>] =
     Some \<lparr>nodeId = ''ns=3;i=1009'', alias_n = ''opcua_temperature'', unit = [CHR 0xB0, CHR ''C''],
       category = ''temperature'', min_val = Some (Fin 0), max_val = Some (Fin 7)\<rparr> \<and>
   round64 (63 / 10) = Fin (7093169413108531 / 2 ^ 50) \<and>
   percentage (Fin 0) (Fin 7) (round64 (63 / 10)) = Fin 90 \<and>
   js_ge (percentage (Fin 0) (Fin 7) (round64 (63 / 10))) (Fin 90) \<and>
   getStatusForValue
     [\<lparr>nodeId = ''ns=3;i=1009'', alias_n = ''opcua_temperature'', unit = [CHR 0xB0, CHR ''C''],
       category = ''temperature'', min_val = Some (Fin 0), max_val = Some (Fin 7)\<rparr>]
     ''opcua_temperature'' (round64 (63 / 10)) = Critical \<and>
   js_finite (Fin 100) \<and> js_double (Fin 100) \<and> js_double (Fin 150) \<and>
   js_gt (Fin 150) (Fin 100) \<and>
   getStatusForValue
     [\<lparr>nodeId = ''ns=3;i=1009'', alias_n = ''opcua_temperature'', unit = [CHR 0xB0, CHR ''C''],
       category = ''temperature'', min_val = Some (Fin 100), max_val = Some (Fin 100)\<rparr>]
     ''opcua_temperature'' (Fin 150) = Critical"
proof -
  define node7 where "node7 =
     \<lparr>nodeId = ''ns=3;i=1009'', alias_n = ''opcua_temperature'', unit = [CHR 0xB0, CHR ''C''],
       category = ''temperature'', min_val = Some (Fin 0), max_val = Some (Fin 7)\<rparr>"
  define v where "v = round64 (63 / 10)"
  have f: "find (\<lambda>n. alias_n n = ''opcua_temperature'') [node7] = Some node7"
    by (simp add: node7_def)
  have b: "min_val node7 = Some (Fin 0) \<and> max_val node7 = Some (Fin 7)"
    by (simp add: node7_def)
  have r: "round64 (63 / 10) = Fin (7093169413108531 / 2 ^ 50)" by (rule round64_63_10)
  have p: "percentage (Fin 0) (Fin 7) v = Fin 90" unfolding v_def by (rule percentage_63_of_7)
  have g: "js_ge (percentage (Fin 0) (Fin 7) v) (Fin 90)" by (simp add: p)
  from getStatusForValue_cases [of "''opcua_temperature''" "[node7]" v] f
  have "\<forall>lo hi. min_val node7 = Some lo \<and> max_val node7 = Some hi \<longrightarrow>
          (getStatusForValue [node7] ''opcua_temperature'' v = Critical \<longleftrightarrow>
             js_ge (percentage lo hi v) (Fin 90))"
    by blast
  with b have "getStatusForValue [node7] ''opcua_temperature'' v = Critical \<longleftrightarrow>
      js_ge (percentage (Fin 0) (Fin 7) v) (Fin 90)"
    by blast
  with g have w: "getStatusForValue [node7] ''opcua_temperature'' v = Critical" by blast
  define flat where "flat =
     [\<lparr>nodeId = ''ns=3;i=1009'', alias_n = ''opcua_temperature'', unit = [CHR 0xB0, CHR ''C''],
       category = ''temperature'', min_val = Some (Fin 100), max_val = Some (Fin 100)\<rparr>]"
  have ff: "find (\<lambda>n. alias_n n = ''opcua_temperature'') flat = Some (flat ! 0)"
    by (simp add: flat_def)
  have fb: "min_val (flat ! 0) = Some (Fin 100) \<and> max_val (flat ! 0) = Some (Fin 100)"
    by (simp add: flat_def)
  have d0: "js_finite (Fin 100)" by (simp add: js_finite_def)
  have d1: "js_double (Fin 100)" by (simp add: js_double_def round64_100)
  have d2: "js_double (Fin 150)" by (simp add: js_double_def round64_150)
  have g2: "js_gt (Fin 150) (Fin 100)" by (simp add: js_gt_def)
  from getStatusForValue_cases [of "''opcua_temperature''" flat "Fin 150"] ff
  have "\<forall>lo hi. min_val (flat ! 0) = Some lo \<and> max_val (flat ! 0) = Some hi \<longrightarrow>
          (js_finite lo \<and> js_finite hi \<and> js_value hi = js_value lo \<and> js_double lo \<and>
           js_double (Fin 150) \<longrightarrow>
             (getStatusForValue flat ''opcua_temperature'' (Fin 150) = Critical \<longleftrightarrow>
                (if hi = NegZero \<and> lo = Fin 0 then js_gt lo (Fin 150) else js_gt (Fin 150) lo)))"
    by blast
  with fb have "js_finite (Fin 100) \<and> js_finite (Fin 100) \<and> js_value (Fin 100) = js_value (Fin 100) \<and>
      js_double (Fin 100) \<and> js_double (Fin 150) \<longrightarrow>
        (getStatusForValue flat ''opcua_temperature'' (Fin 150) = Critical \<longleftrightarrow>
           (if Fin 100 = NegZero \<and> Fin 100 = Fin 0 then js_gt (Fin 100) (Fin 150)
            else js_gt (Fin 150) (Fin 100)))"
    by blast
  with d0 d1 d2 g2 have c: "getStatusForValue flat ''opcua_temperature'' (Fin 150) = Critical"
    by simp
  from f r p g w d0 d1 d2 g2 c show ?thesis unfolding flat_def node7_def v_def by blast
qed

text \<open>
  Claim C8 as stated fails: with \<^verbatim>\<open>min = max = 100\<close> the range has width zero,
  \<^verbatim>\<open>(150 - 100) / 0\<close> is \<^verbatim>\<open>Infinity\<close>, and the status of the value 150 is
  \<open>Critical\<close>, not \<open>Normal\<close>.
\<close>

theorem getStatusForValue_zero_width_counterexample:
  "getStatusForValue
     [\<lparr>nodeId = ''ns=3;i=1009'', alias_n = ''opcua_temperature'', unit = [CHR 0xB0, CHR ''C''],
       category = ''temperature'', min_val = Some (Fin 100), max_val = Some (Fin 100)\<rparr>]
     ''opcua_temperature'' (Fin 150) = Critical"
  by (simp add: getStatusForValue_def round64_50 round64_zero signed_inf_def)

subsection \<open>Activation after a successful test\<close>

lemma last_test_ok_has_response: "last_test_ok h \<Longrightarrow> TestResponded True \<in> set h"
  by (induction h rule: last_test_ok.induct) auto

lemma activations_guarded_split:
  "activations_guarded (h' @ ActivateRequested p # h) \<Longrightarrow> last_test_ok h"
  by (induction h' rule: activations_guarded.induct) auto

lemma wizard_inv_init: "wizard_inv init_wizard"
  by (simp add: wizard_inv_def init_wizard_def testResult_ok_def)

lemma wizard_inv_step: "wizard_inv s \<Longrightarrow> step s e = Some s' \<Longrightarrow> wizard_inv s'"
  by (cases e)
     (auto simp: wizard_inv_def testResult_ok_def activateDisabled_def testDisabled_def
           split: if_splits)

lemma wizard_inv_run: "wizard_inv s \<Longrightarrow> run s es = Some s' \<Longrightarrow> wizard_inv s'"
proof (induction es arbitrary: s)
  case Nil
  then show ?case by simp
next
  case (Cons e es)
  then obtain s1 where s1: "step s e = Some s1" and r: "run s1 es = Some s'"
    by (auto split: option.splits)
  from Cons.prems(1) s1 have "wizard_inv s1" by (rule wizard_inv_step)
  then show ?case using r by (rule Cons.IH)
qed

text \<open>The button does nothing before a test, after a test that did not return ok, and
  while a test is in flight.\<close>

lemma no_activate_before_test: "run init_wizard [ClickActivate] = None"
  by (simp add: init_wizard_def activateDisabled_def testResult_ok_def)

lemma no_activate_after_failed_test:
  "run init_wizard [ClickTest, TestResolved False [] [] (Some ''refused''), ClickActivate] = None"
  by (simp add: init_wizard_def activateDisabled_def testDisabled_def testResult_ok_def)

lemma no_activate_during_test:
  "run init_wizard [ClickTest, TestResolved True [] [] None, ClickTest, ClickActivate] = None"
  by (simp add: init_wizard_def activateDisabled_def testDisabled_def testResult_ok_def)

text \<open>
  Claim C9. In every state the wizard reaches from its initial state, every
  activation request sent so far was sent when the most recent test had returned
  ok, so a successful \<^verbatim>\<open>/opcua/test\<close> response precedes it. The
  \<^verbatim>\<open>Activate & Start\<close> button is disabled exactly while an activation or a test
  is in flight or \<^verbatim>\<open>testResult?.ok\<close> is not true; a disabled button sends
  nothing, and an enabled one sends the request when the most recent test returned
  ok.
\<close>

theorem activate_only_after_ok_test:
  assumes "run init_wizard es = Some s"
  shows "activations_guarded (http s) \<and>
         (\<forall>h' p h. http s = h' @ ActivateRequested p # h \<longrightarrow>
            last_test_ok h \<and> TestResponded True \<in> set h) \<and>
         (activateDisabled s \<longleftrightarrow> isActivating s \<or> isTesting s \<or> \<not> testResult_ok s) \<and>
         (activateDisabled s \<longrightarrow> step s ClickActivate = None) \<and>
         (\<not> activateDisabled s \<longrightarrow> last_test_ok (http s) \<and>
            (\<exists>s'. step s ClickActivate = Some s' \<and>
               http s' = ActivateRequested (buildPayload (endpointUrl s) (nodes s)) # http s))"
proof -
  have inv: "wizard_inv s" using wizard_inv_init assms by (rule wizard_inv_run)
  then have g: "activations_guarded (http s)" by (simp add: wizard_inv_def)
  have a: "\<forall>h' p h. http s = h' @ ActivateRequested p # h \<longrightarrow>
            last_test_ok h \<and> TestResponded True \<in> set h"
  proof (intro allI impI)
    fix h' p h assume "http s = h' @ ActivateRequested p # h"
    with g have "last_test_ok h" by (metis activations_guarded_split)
    then show "last_test_ok h \<and> TestResponded True \<in> set h"
      by (simp add: last_test_ok_has_response)
  qed
  have d: "\<not> activateDisabled s \<longrightarrow> last_test_ok (http s)"
    using inv by (simp add: wizard_inv_def activateDisabled_def)
  show ?thesis using g a d by (simp add: activateDisabled_def)
qed

theorem activate_only_after_ok_test_witness:
  "\<exists>s. run init_wizard [ClickTest, TestResolved True [] [] None, ClickActivate] = Some s \<and>
       http s = [ActivateRequested (buildPayload default_endpoint default_nodes),
                 TestResponded True,
                 TestRequested (buildPayload default_endpoint default_nodes)] \<and>
       activations_guarded (http s) \<and> activateDisabled s \<and> step s ClickActivate = None"
proof -
  obtain s where r: "run init_wizard [ClickTest, TestResolved True [] [] None, ClickActivate] = Some s"
    and h: "http s = [ActivateRequested (buildPayload default_endpoint default_nodes),
                 TestResponded True,
                 TestRequested (buildPayload default_endpoint default_nodes)]"
    and d: "activateDisabled s"
    by (simp add: init_wizard_def testDisabled_def activateDisabled_def testResult_ok_def)
  from activate_only_after_ok_test [OF r] d
  have "activations_guarded (http s) \<and> step s ClickActivate = None" by blast
  with r h d show ?thesis by blast
qed

text \<open>
  The two flags follow the traffic: \<^verbatim>\<open>isTesting\<close> is set exactly while a test
  request is unanswered, \<^verbatim>\<open>isActivating\<close> exactly while an activation request
  is, never both, and the button is disabled while either request is in flight.
\<close>

lemma flags_inv_init: "flags_inv init_wizard"
  by (simp add: flags_inv_def init_wizard_def)

lemma flags_inv_step: "flags_inv s \<Longrightarrow> step s e = Some s' \<Longrightarrow> flags_inv s'"
  by (cases e)
     (auto simp: flags_inv_def activateDisabled_def testDisabled_def split: if_splits)

lemma flags_inv_run: "flags_inv s \<Longrightarrow> run s es = Some s' \<Longrightarrow> flags_inv s'"
proof (induction es arbitrary: s)
  case Nil
  then show ?case by simp
next
  case (Cons e es)
  then obtain s1 where s1: "step s e = Some s1" and r: "run s1 es = Some s'"
    by (auto split: option.splits)
  from Cons.prems(1) s1 have "flags_inv s1" by (rule flags_inv_step)
  then show ?case using r by (rule Cons.IH)
qed

lemma flags_track_requests:
  assumes "run init_wizard es = Some s"
  shows "(isTesting s \<longleftrightarrow> test_in_flight (http s)) \<and>
         (isActivating s \<longleftrightarrow> activate_in_flight (http s)) \<and>
         \<not> (isTesting s \<and> isActivating s) \<and>
         (test_in_flight (http s) \<or> activate_in_flight (http s) \<longrightarrow> activateDisabled s)"
proof -
  have "flags_inv s" using flags_inv_init assms by (rule flags_inv_run)
  then show ?thesis by (auto simp: flags_inv_def activateDisabled_def)
qed

section \<open>Properties of the ingestion path\<close>

subsection \<open>Deduplication in the Router\<close>

lemma getOrCreateMachine_keeps:
  "sensors (snd (getOrCreateMachine tag st)) = sensors st"
  "rows (snd (getOrCreateMachine tag st)) = rows st"
  by (simp_all add: getOrCreateMachine_def Let_def split: option.splits)

lemma getOrCreateSensor_existing:
  "find (\<lambda>s. sensor_alias s = a) (sensors st) = Some sensor \<Longrightarrow>
   getOrCreateSensor a machineId st = (sensor, st)"
  by (simp add: getOrCreateSensor_def)

lemma latestTimestamp_rows:
  "rows st' = rows st \<Longrightarrow> latestTimestamp k st' = latestTimestamp k st"
  by (simp add: latestTimestamp_def)

lemma route_stores_newer:
  assumes "find (\<lambda>s. sensor_alias s = alias_n node) (sensors st) = Some sensor"
    and "latestTimestamp (sensor_id sensor) st = Some t"
    and "t < s_timestamp sample"
  shows "fst (route True source node sample st) = Inr Stored \<and>
         row_count (sensor_id sensor) (snd (route True source node sample st)) =
           Suc (row_count (sensor_id sensor) st) \<and>
         fst (route False source node sample st) = Inl StorageError \<and>
         rows (snd (route False source node sample st)) = rows st"
proof -
  obtain machine st1 where m: "getOrCreateMachine (routing_tag source) st = (machine, st1)"
    by (cases "getOrCreateMachine (routing_tag source) st")
  have s1: "sensors st1 = sensors st" and r1: "rows st1 = rows st"
    using getOrCreateMachine_keeps [of "routing_tag source" st] m by simp_all
  have g: "getOrCreateSensor (alias_n node) (machine_id machine) st1 = (sensor, st1)"
    using assms(1) s1 by (simp add: getOrCreateSensor_existing)
  have l: "latestTimestamp (sensor_id sensor) st1 = Some t"
    using assms(2) latestTimestamp_rows [OF r1] by simp
  show ?thesis
    using m g l assms(3) r1 by (simp add: route_def insertSample_def row_count_def)
qed

text \<open>
  Claim C1. For every sensor, \<open>route\<close> with a sample whose timestamp is equal to or
  earlier than the timestamp of the most recently stored sample of that sensor
  returns the no-op result and not an error, whether or not the store accepts
  writes; the stored rows, and with them the row count of the sensor, are
  unchanged.
\<close>

theorem route_duplicate_noop:
  assumes "find (\<lambda>s. sensor_alias s = alias_n node) (sensors st) = Some sensor"
    and "latestTimestamp (sensor_id sensor) st = Some t"
    and "s_timestamp sample \<le> t"
  shows "fst (route accepts source node sample st) = Inr NoOp \<and>
         rows (snd (route accepts source node sample st)) = rows st \<and>
         row_count (sensor_id sensor) (snd (route accepts source node sample st)) =
           row_count (sensor_id sensor) st"
proof -
  obtain machine st1 where m: "getOrCreateMachine (routing_tag source) st = (machine, st1)"
    by (cases "getOrCreateMachine (routing_tag source) st")
  have s1: "sensors st1 = sensors st" and r1: "rows st1 = rows st"
    using getOrCreateMachine_keeps [of "routing_tag source" st] m by simp_all
  have g: "getOrCreateSensor (alias_n node) (machine_id machine) st1 = (sensor, st1)"
    using assms(1) s1 by (simp add: getOrCreateSensor_existing)
  have l: "latestTimestamp (sensor_id sensor) st1 = Some t"
    using assms(2) latestTimestamp_rows [OF r1] by simp
  have "route accepts source node sample st = (Inr NoOp, st1)"
    using m g l assms(3) by (simp add: route_def)
  then show ?thesis using r1 by (simp add: row_count_def)
qed

theorem route_duplicate_noop_witness:
  "find (\<lambda>s. sensor_alias s = alias_n (default_nodes ! 0)) (sensors example_storage) =
     Some \<lparr>sensor_id = 0, sensor_alias = ''opcua_temperature'', sensor_machine = 0\<rparr> \<and>
   latestTimestamp 0 example_storage = Some 5000 \<and>
   s_timestamp (example_sample 5000) \<le> 5000 \<and>
   fst (route True example_source (default_nodes ! 0) (example_sample 5000) example_storage) = Inr NoOp \<and>
   row_count 0 (snd (route True example_source (default_nodes ! 0) (example_sample 5000) example_storage)) = 1"
proof -
  have f: "find (\<lambda>s. sensor_alias s = alias_n (default_nodes ! 0)) (sensors example_storage) =
     Some \<lparr>sensor_id = 0, sensor_alias = ''opcua_temperature'', sensor_machine = 0\<rparr>"
    by (simp add: default_nodes_def example_storage_def)
  have l: "latestTimestamp (sensor_id \<lparr>sensor_id = 0, sensor_alias = ''opcua_temperature'',
             sensor_machine = 0\<rparr>) example_storage = Some 5000"
    by (simp add: latestTimestamp_def example_storage_def)
  have t: "s_timestamp (example_sample 5000) \<le> 5000" by (simp add: example_sample_def)
  have c: "row_count 0 example_storage = 1" by (simp add: row_count_def example_storage_def)
  from route_duplicate_noop [OF f l t, of True example_source] f l t c
  show ?thesis by simp
qed

subsection \<open>Keys of Machines and Sensors\<close>

text \<open>
  Calls of \<open>route\<close> that run one after the other keep the routing tags of the
  Machines and the aliases of the Sensors distinct, whatever the store accepts.
  Calls that overlap are not covered: between the lookup and the creation of one
  call another call may run, and what then keeps the keys distinct is the guard of
  the store, which the sources do not show.
\<close>

lemma getOrCreateMachine_distinct:
  "keys_distinct st \<Longrightarrow> keys_distinct (snd (getOrCreateMachine tag st))"
  by (auto simp: keys_distinct_def getOrCreateMachine_def Let_def find_None_iff
           split: option.splits)

lemma getOrCreateSensor_distinct:
  "keys_distinct st \<Longrightarrow> keys_distinct (snd (getOrCreateSensor a machineId st))"
  by (auto simp: keys_distinct_def getOrCreateSensor_def Let_def find_None_iff
           split: option.splits)

lemma route_keeps_keys_distinct:
  assumes "keys_distinct st"
  shows "keys_distinct (snd (route accepts source node sample st))"
proof -
  obtain machine st1 where m: "getOrCreateMachine (routing_tag source) st = (machine, st1)"
    by (cases "getOrCreateMachine (routing_tag source) st")
  obtain sensor st2 where s: "getOrCreateSensor (alias_n node) (machine_id machine) st1 = (sensor, st2)"
    by (cases "getOrCreateSensor (alias_n node) (machine_id machine) st1")
  have "keys_distinct st1" using getOrCreateMachine_distinct [OF assms, of "routing_tag source"] m
    by simp
  then have k2: "keys_distinct st2"
    using getOrCreateSensor_distinct [of st1 "alias_n node" "machine_id machine"] s by simp
  have "snd (route accepts source node sample st) = st2 \<or>
        (\<exists>r. snd (route accepts source node sample st) = st2\<lparr>rows := rows st2 @ [r]\<rparr>)"
    using m s by (auto simp: route_def insertSample_def split: option.splits if_splits)
  then show ?thesis using k2 by (auto simp: keys_distinct_def)
qed

lemma route_all_keys_distinct:
  "keys_distinct st \<Longrightarrow> keys_distinct (route_all cs st)"
proof (induction cs arbitrary: st)
  case Nil
  then show ?case by simp
next
  case (Cons c cs)
  obtain accepts source node sample where c: "c = (accepts, source, node, sample)"
    by (cases c)
  from Cons.prems have "keys_distinct (snd (route accepts source node sample st))"
    by (rule route_keeps_keys_distinct)
  then have "keys_distinct (route_all cs (snd (route accepts source node sample st)))"
    by (rule Cons.IH)
  then show ?case using c by simp
qed

lemma route_all_from_empty:
  "keys_distinct (route_all cs \<lparr>machines = [], sensors = [], rows = []\<rparr>)"
  by (rule route_all_keys_distinct) (simp add: keys_distinct_def)

subsection \<open>Buffering in the Detection Bridge\<close>

lemma observe_window:
  "window_of (snd (observe env node k x b)) k' =
     (if k' = k then push_window (s_value x) (window_of b k) else window_of b k')"
  by (simp add: observe_def Let_def window_of_def split: sum.splits)

lemma push_window_drop:
  "push_window v (drop (length vs - window_capacity) vs) =
   drop (length (vs @ [v]) - window_capacity) (vs @ [v])"
proof (cases "window_capacity \<le> length vs")
  case True
  then have "length (drop (length vs - window_capacity) vs) = window_capacity" by simp
  then have "push_window v (drop (length vs - window_capacity) vs) =
             tl (drop (length vs - window_capacity) vs) @ [v]"
    by (simp add: push_window_def)
  also have "\<dots> = drop (Suc (length vs - window_capacity)) vs @ [v]"
    by (simp add: drop_Suc tl_drop)
  also have "\<dots> = drop (length (vs @ [v]) - window_capacity) (vs @ [v])"
  proof -
    have "Suc (length vs - window_capacity) = length (vs @ [v]) - window_capacity"
      using True by simp
    moreover have "length (vs @ [v]) - window_capacity - length vs = 0"
      by (simp add: window_capacity_def)
    ultimately show ?thesis by (simp del: length_append)
  qed
  finally show ?thesis .
next
  case False
  then show ?thesis by (simp add: push_window_def)
qed

lemma values_for_Cons:
  "values_for k ((node, k', x) # cs) =
     (if k' = k then s_value x # values_for k cs else values_for k cs)"
  by (simp add: values_for_def)

lemma window_after_calls:
  "window_of b k = drop (length pre - window_capacity) pre \<Longrightarrow>
   window_of (observe_all env cs b) k =
     drop (length (pre @ values_for k cs) - window_capacity) (pre @ values_for k cs)"
proof (induction cs arbitrary: b pre)
  case Nil
  then show ?case by (simp add: values_for_def)
next
  case (Cons c cs)
  obtain node k' x where c: "c = (node, k', x)" by (cases c)
  show ?case
  proof (cases "k' = k")
    case True
    have "window_of (snd (observe env node k' x b)) k =
          drop (length (pre @ [s_value x]) - window_capacity) (pre @ [s_value x])"
      using True Cons.prems by (simp add: observe_window push_window_drop del: length_append)
    from Cons.IH [OF this] show ?thesis using c True by (simp add: values_for_Cons)
  next
    case False
    have "window_of (snd (observe env node k' x b)) k = drop (length pre - window_capacity) pre"
      using False Cons.prems by (simp add: observe_window)
    from Cons.IH [OF this] show ?thesis using c False by (simp add: values_for_Cons)
  qed
qed

lemma window_after_calls_fresh:
  assumes "windows b k = None" and "length (values_for k cs) \<le> window_capacity"
  shows "window_of (observe_all env cs b) k = values_for k cs"
proof -
  have "window_of b k = drop (length ([]::real option list) - window_capacity) []"
    using assms(1) by (simp add: window_of_def)
  from window_after_calls [OF this, of env cs] show ?thesis using assms(2) by simp
qed

text \<open>
  Claim C2. For a sensor the Bridge has not seen and every sequence of \<open>observe\<close>
  calls, for this and other sensors: while fewer than 11 earlier calls were for the
  sensor (calls 1 to 11), \<open>observe\<close> returns \<^verbatim>\<open>buffering\<close> and appends no
  Prediction and no Alarm; after exactly 11 earlier calls (call 12) it hands the
  window of the twelve values to the scorer, returns the verdict, and appends one
  Prediction carrying it.
\<close>

theorem observe_buffers_then_predicts:
  assumes "windows b sensorId = None"
  shows
    "(length (values_for sensorId cs) < 11 \<longrightarrow>
        fst (observe env node sensorId sample (observe_all env cs b)) = Buffering \<and>
        observation_status (fst (observe env node sensorId sample (observe_all env cs b))) = St_buffering \<and>
        predictions (snd (observe env node sensorId sample (observe_all env cs b))) =
          predictions (observe_all env cs b) \<and>
        alarms (snd (observe env node sensorId sample (observe_all env cs b))) =
          alarms (observe_all env cs b)) \<and>
     (length (values_for sensorId cs) = 11 \<longrightarrow>
        (\<exists>v. fst (observe env node sensorId sample (observe_all env cs b)) = Verdict v \<and>
           v = (case scorer env (s_alias sample) (values_for sensorId cs @ [s_value sample]) of
                  Inr u \<Rightarrow> u | Inl e \<Rightarrow> fallback_verdict env node sample) \<and>
           predictions (snd (observe env node sensorId sample (observe_all env cs b))) =
             predictions (observe_all env cs b) @
               [\<lparr>p_sensor = sensorId, p_time = s_timestamp sample, p_score = v_score v,
                 p_confidence = v_confidence v, p_status = v_status v, p_rul = v_rul v\<rparr>]))"
proof (intro conjI impI)
  assume n: "length (values_for sensorId cs) < 11"
  then have w: "window_of (observe_all env cs b) sensorId = values_for sensorId cs"
    using assms by (simp add: window_after_calls_fresh window_capacity_def)
  have l: "length (push_window (s_value sample) (window_of (observe_all env cs b) sensorId)) < min_samples"
    using n w by (simp add: push_window_def window_capacity_def min_samples_def)
  show "fst (observe env node sensorId sample (observe_all env cs b)) = Buffering"
    using l by (simp add: observe_def Let_def)
  then show "observation_status (fst (observe env node sensorId sample (observe_all env cs b))) = St_buffering"
    by simp
  show "predictions (snd (observe env node sensorId sample (observe_all env cs b))) =
          predictions (observe_all env cs b)"
    using l by (simp add: observe_def Let_def)
  show "alarms (snd (observe env node sensorId sample (observe_all env cs b))) =
          alarms (observe_all env cs b)"
    using l by (simp add: observe_def Let_def)
next
  assume n: "length (values_for sensorId cs) = 11"
  then have w: "window_of (observe_all env cs b) sensorId = values_for sensorId cs"
    using assms by (simp add: window_after_calls_fresh window_capacity_def)
  have p: "push_window (s_value sample) (window_of (observe_all env cs b) sensorId) =
           values_for sensorId cs @ [s_value sample]"
    using n w by (simp add: push_window_def window_capacity_def)
  have l: "\<not> length (values_for sensorId cs @ [s_value sample]) < min_samples"
    using n by (simp add: min_samples_def)
  show "\<exists>v. fst (observe env node sensorId sample (observe_all env cs b)) = Verdict v \<and>
           v = (case scorer env (s_alias sample) (values_for sensorId cs @ [s_value sample]) of
                  Inr u \<Rightarrow> u | Inl e \<Rightarrow> fallback_verdict env node sample) \<and>
           predictions (snd (observe env node sensorId sample (observe_all env cs b))) =
             predictions (observe_all env cs b) @
               [\<lparr>p_sensor = sensorId, p_time = s_timestamp sample, p_score = v_score v,
                 p_confidence = v_confidence v, p_status = v_status v, p_rul = v_rul v\<rparr>]"
    using l by (simp add: observe_def Let_def p del: length_append split: sum.splits)
qed

theorem observe_buffers_then_predicts_witness:
  "windows init_bridge 0 = None \<and>
   length (values_for 0 []) < 11 \<and>
   fst (observe example_env (default_nodes ! 0) 0 (example_sample 1000)
          (observe_all example_env [] init_bridge)) = Buffering \<and>
   length (values_for 0 (replicate 11 (default_nodes ! 0, 0, example_sample 1000))) = 11 \<and>
   fst (observe example_env (default_nodes ! 0) 0 (example_sample 1000)
          (observe_all example_env (replicate 11 (default_nodes ! 0, 0, example_sample 1000))
             init_bridge)) = Verdict normal_verdict"
proof -
  have w: "windows init_bridge 0 = None" by (simp add: init_bridge_def)
  have n0: "length (values_for 0 []) < 11" by (simp add: values_for_def)
  have n11: "length (values_for 0 (replicate 11 (default_nodes ! 0, 0, example_sample 1000))) = 11"
    by (simp add: values_for_def)
  note t0 = observe_buffers_then_predicts [OF w, of "[]" example_env "default_nodes ! 0"
      "example_sample 1000"]
  note t11 = observe_buffers_then_predicts [OF w,
      of "replicate 11 (default_nodes ! 0, 0, example_sample 1000)" example_env
         "default_nodes ! 0" "example_sample 1000"]
  have a: "fst (observe example_env (default_nodes ! 0) 0 (example_sample 1000)
          (observe_all example_env [] init_bridge)) = Buffering"
    using t0 n0 by blast
  have "\<exists>v. fst (observe example_env (default_nodes ! 0) 0 (example_sample 1000)
          (observe_all example_env (replicate 11 (default_nodes ! 0, 0, example_sample 1000))
             init_bridge)) = Verdict v \<and>
           v = (case scorer example_env (s_alias (example_sample 1000))
                   (values_for 0 (replicate 11 (default_nodes ! 0, 0, example_sample 1000)) @
                      [s_value (example_sample 1000)]) of
                  Inr u \<Rightarrow> u | Inl e \<Rightarrow> fallback_verdict example_env (default_nodes ! 0) (example_sample 1000))"
    using t11 n11 by blast
  then have b: "fst (observe example_env (default_nodes ! 0) 0 (example_sample 1000)
          (observe_all example_env (replicate 11 (default_nodes ! 0, 0, example_sample 1000))
             init_bridge)) = Verdict normal_verdict"
    by (auto simp: example_env_def)
  from w n0 a n11 b show ?thesis by blast
qed

end
